theory Spec2Isabelle
  imports Complex_Main "HOL-Library.Word"
begin

unbundle bit_operations_syntax

section \<open>Data model of auto-taker.py\<close>

text \<open>
  Python strings are modelled as \<^typ>\<open>string\<close> holding their UTF-8 bytes, so
  \<^verbatim>\<open>str.encode('utf-8')\<close> is the identity and a Python \<^verbatim>\<open>bytes\<close> value is a
  \<^typ>\<open>string\<close> too.

  Values that arrive from decoded JSON are dynamically typed in the source (the type
  annotations are not enforced), so they are kept as values of \<open>py\<close>.
  \<open>PyClientResponse\<close> stands for an \<^verbatim>\<open>aiohttp.ClientResponse\<close> object with its
  status code.
\<close>

type_synonym bytes = string

datatype py =
    PyNone
  | PyInt int
  | PyStr string
  | PyList "py list"
  | PyDict "(string \<times> py) list"
  | PyClientResponse int

text \<open>The two enumerations, in their order of definition.\<close>

datatype TradeAction = BUY | SELL

fun TradeAction_name :: "TradeAction \<Rightarrow> string" where
  "TradeAction_name BUY = ''BUY''"
| "TradeAction_name SELL = ''SELL''"

text \<open>\<^verbatim>\<open>[*TradeAction]\<close>: iterating an Enum class yields its members in definition order.\<close>

definition TradeAction_members :: "TradeAction list" where
  "TradeAction_members = [BUY, SELL]"

datatype OrderType = LIMIT | MARKET

fun OrderType_name :: "OrderType \<Rightarrow> string" where
  "OrderType_name LIMIT = ''LIMIT''"
| "OrderType_name MARKET = ''MARKET''"

record Strategy =
  Strategy_id :: py
  Strategy_min_block_size :: py

record Order =
  Order_id :: py
  Order_side :: string
  Order_amount :: py
  Order_account_name :: string
  Order_type :: string
  Order_price :: "string option"

text \<open>
  \<^verbatim>\<open>Order.__init__\<close> with its defaults \<^verbatim>\<open>type = OrderType.MARKET.name\<close> and
  \<^verbatim>\<open>price = None\<close>, as \<^verbatim>\<open>construct_order_payloads\<close> calls it.
\<close>

definition Order_init :: "py \<Rightarrow> string \<Rightarrow> py \<Rightarrow> string \<Rightarrow> Order" where
  "Order_init i s a acct =
     \<lparr>Order_id = i, Order_side = s, Order_amount = a, Order_account_name = acct,
      Order_type = OrderType_name MARKET, Order_price = None\<rparr>"

text \<open>Truth value of \<^verbatim>\<open>self.price\<close>: \<^verbatim>\<open>None\<close> and the empty string are falsy.\<close>

fun price_truthy :: "string option \<Rightarrow> bool" where
  "price_truthy None = False"
| "price_truthy (Some s) = (s \<noteq> [])"

text \<open>
  \<^verbatim>\<open>Order.order_payload\<close>. A dict keeps insertion order, so the payload is an
  association list; \<^verbatim>\<open>_order_payload['price'] = ...\<close> adds a new last key.
\<close>

definition order_payload :: "Order \<Rightarrow> (string \<times> py) list" where
  "order_payload self =
     (let payload =
            [(''account_name'', PyStr (Order_account_name self)),
             (''strategy_id'', Order_id self),
             (''type'', PyStr (Order_type self)),
             (''amount'', Order_amount self),
             (''side'', PyStr (Order_side self))]
      in if price_truthy (Order_price self)
         then payload @ [(''price'', PyStr (the (Order_price self)))]
         else payload)"

record AutoTaker =
  paradigm_http_url :: string
  paradigm_taker_account_name :: string
  paradigm_taker_access_key :: string
  paradigm_taker_secret_key :: string
  order_number_per_strategy :: int
  order_submission_lower_boundary :: int
  order_submission_higher_boundary :: int
  availabile_strateies :: "Strategy list"
  order_payloads :: "Order list"

text \<open>
  \<^verbatim>\<open>construct_order_payloads\<close>: the two nested \<^verbatim>\<open>for\<close> loops, each appending to
  \<^verbatim>\<open>order_payloads\<close>, as two nested left folds over the accumulator.
\<close>

definition construct_order_payloads :: "AutoTaker \<Rightarrow> Order list" where
  "construct_order_payloads self =
     foldl (\<lambda>order_payloads strategy.
              foldl (\<lambda>order_payloads side.
                       order_payloads @
                         [Order_init (Strategy_id strategy) (TradeAction_name side)
                            (Strategy_min_block_size strategy)
                            (paradigm_taker_account_name self)])
                    order_payloads TradeAction_members)
           [] (availabile_strateies self)"

section \<open>Library functions used by the signer\<close>

text \<open>
  Exceptions the program can meet. \<open>BinasciiError\<close> is \<^verbatim>\<open>binascii.Error\<close>; the
  \<open>Client...\<close>, \<open>ServerDisconnectedError\<close> and \<open>ContentTypeError\<close> constructors are the
  \<^verbatim>\<open>aiohttp\<close> exceptions of those names, \<open>JSONDecodeError\<close> is \<^verbatim>\<open>json.JSONDecodeError\<close>;
  the others are the built-in exceptions of those names.
\<close>

datatype exn =
    BinasciiError
  | TypeError
  | KeyError
  | NameError
  | ValueError
  | OverflowError
  | ClientConnectorError
  | ClientOSError
  | ServerDisconnectedError
  | ContentTypeError
  | JSONDecodeError

subsection \<open>\<^verbatim>\<open>str(int(...))\<close>, \<^verbatim>\<open>bytes.upper\<close>, \<^verbatim>\<open>bytes.join\<close>\<close>

text \<open>
  \<^verbatim>\<open>int(x)\<close> of a float truncates towards zero. A finite float is a rational number,
  and the truncation is exact.
\<close>

definition py_int_of_float :: "rat \<Rightarrow> int" where
  "py_int_of_float x = (if 0 \<le> x then \<lfloor>x\<rfloor> else \<lceil>x\<rceil>)"

definition digit_char :: "nat \<Rightarrow> char" where
  "digit_char d = char_of (48 + d)"

function py_str_nat :: "nat \<Rightarrow> string" where
  "py_str_nat n = (if n < 10 then [digit_char n] else py_str_nat (n div 10) @ [digit_char (n mod 10)])"
  by pat_completeness auto
termination
  by (relation "measure (\<lambda>n. n)") auto

declare py_str_nat.simps [simp del]

text \<open>\<^verbatim>\<open>str(i)\<close> for an integer \<open>i\<close>: a minus sign for a negative number, then the decimal digits.\<close>

definition py_str_int :: "int \<Rightarrow> string" where
  "py_str_int i = (if i < 0 then CHR ''-'' # py_str_nat (nat (- i)) else py_str_nat (nat i))"

text \<open>\<^verbatim>\<open>bytes.upper\<close> maps the ASCII letters a..z to A..Z and leaves every other byte.\<close>

definition byte_upper :: "char \<Rightarrow> char" where
  "byte_upper c =
     (if 97 \<le> (of_char c :: nat) \<and> (of_char c :: nat) \<le> 122
      then char_of ((of_char c :: nat) - 32) else c)"

definition bytes_upper :: "bytes \<Rightarrow> bytes" where
  "bytes_upper s = map byte_upper s"

fun bytes_join :: "bytes \<Rightarrow> bytes list \<Rightarrow> bytes" where
  "bytes_join sep [] = []"
| "bytes_join sep [x] = x"
| "bytes_join sep (x # y # ys) = x @ sep @ bytes_join sep (y # ys)"

subsection \<open>Base64\<close>

text \<open>
  The alphabet of RFC 4648, section 4: the values 0..25 are the letters A..Z, 26..51 the
  letters a..z, 52..61 the digits 0..9, 62 is \<^verbatim>\<open>+\<close> and 63 is \<^verbatim>\<open>/\<close>.
\<close>

definition b64_alphabet :: string where
  "b64_alphabet = ''ABCDEFGHIJKLMNOPQRSTUVWXYZabcdefghijklmnopqrstuvwxyz0123456789+/''"

definition b64_char :: "nat \<Rightarrow> char" where
  "b64_char n =
     char_of (if n < 26 then n + 65 else if n < 52 then n + 71 else if n < 62 then n - 4
              else if n = 62 then 43 else (47 :: nat))"

text \<open>The 6-bit value of an alphabet character; \<open>None\<close> for every other byte.\<close>

definition b64_index :: "char \<Rightarrow> nat option" where
  "b64_index c =
     (let n = (of_char c :: nat)
      in if 65 \<le> n \<and> n \<le> 90 then Some (n - 65)
         else if 97 \<le> n \<and> n \<le> 122 then Some (n - 71)
         else if 48 \<le> n \<and> n \<le> 57 then Some (n + 4)
         else if n = 43 then Some 62
         else if n = 47 then Some 63
         else None)"

text \<open>
  \<^verbatim>\<open>base64.b64encode\<close>: three bytes become four alphabet characters; a last group of
  one or two bytes is padded with \<^verbatim>\<open>=\<close>.
\<close>

fun b64encode :: "bytes \<Rightarrow> bytes" where
  "b64encode [] = []"
| "b64encode [a] =
     (let x = (of_char a :: nat)
      in [b64_char (x div 4), b64_char ((x mod 4) * 16), CHR ''='', CHR ''=''])"
| "b64encode [a, b] =
     (let x = (of_char a :: nat); y = (of_char b :: nat)
      in [b64_char (x div 4), b64_char ((x mod 4) * 16 + y div 16),
          b64_char ((y mod 16) * 4), CHR ''=''])"
| "b64encode (a # b # c # rest) =
     (let x = (of_char a :: nat); y = (of_char b :: nat); z = (of_char c :: nat)
      in [b64_char (x div 4), b64_char ((x mod 4) * 16 + y div 16),
          b64_char ((y mod 16) * 4 + z div 64), b64_char (z mod 64)] @ b64encode rest)"

text \<open>
  \<^verbatim>\<open>base64.b64decode(s)\<close> with its default \<^verbatim>\<open>validate=False\<close> is
  \<^verbatim>\<open>binascii.a2b_base64(s)\<close> in its non-strict mode: one pass over the input with the
  position in the current group of four (\<open>quad_pos\<close>), the bits left over from the last
  character (\<open>leftchar\<close>) and the number of \<^verbatim>\<open>=\<close> seen since the last alphabet
  character (\<open>pads\<close>). A byte outside the alphabet is skipped; a \<^verbatim>\<open>=\<close> that completes
  a group ends the decoding, every other \<^verbatim>\<open>=\<close> is skipped; input that ends inside a
  group raises \<^verbatim>\<open>binascii.Error\<close>.
\<close>

fun a2b_base64_loop :: "nat \<Rightarrow> nat \<Rightarrow> nat \<Rightarrow> bytes \<Rightarrow> bytes \<Rightarrow> exn + bytes" where
  "a2b_base64_loop quad_pos leftchar pads bin_data [] =
     (if quad_pos \<noteq> 0 then Inl BinasciiError else Inr bin_data)"
| "a2b_base64_loop quad_pos leftchar pads bin_data (this_ch # rest) =
     (if this_ch = CHR ''='' then
        (if 2 \<le> quad_pos then
           (if 4 \<le> quad_pos + (pads + 1) then Inr bin_data
            else a2b_base64_loop quad_pos leftchar (pads + 1) bin_data rest)
         else a2b_base64_loop quad_pos leftchar pads bin_data rest)
      else
        (case b64_index this_ch of
           None \<Rightarrow> a2b_base64_loop quad_pos leftchar pads bin_data rest
         | Some v \<Rightarrow>
             (if quad_pos = 0 then a2b_base64_loop 1 v 0 bin_data rest
              else if quad_pos = 1 then
                a2b_base64_loop 2 (v mod 16) 0
                  (bin_data @ [char_of (leftchar * 4 + v div 16)]) rest
              else if quad_pos = 2 then
                a2b_base64_loop 3 (v mod 4) 0
                  (bin_data @ [char_of (leftchar * 16 + v div 4)]) rest
              else
                a2b_base64_loop 0 0 0
                  (bin_data @ [char_of (leftchar * 64 + v)]) rest)))"

definition b64decode :: "bytes \<Rightarrow> exn + bytes" where
  "b64decode s = a2b_base64_loop 0 0 0 [] s"

subsection \<open>SHA-256 (FIPS 180-4) and HMAC (RFC 2104)\<close>

definition sha256_k :: "32 word list" where
  "sha256_k =
     [0x428a2f98, 0x71374491, 0xb5c0fbcf, 0xe9b5dba5] @
     [0x3956c25b, 0x59f111f1, 0x923f82a4, 0xab1c5ed5] @
     [0xd807aa98, 0x12835b01, 0x243185be, 0x550c7dc3] @
     [0x72be5d74, 0x80deb1fe, 0x9bdc06a7, 0xc19bf174] @
     [0xe49b69c1, 0xefbe4786, 0x0fc19dc6, 0x240ca1cc] @
     [0x2de92c6f, 0x4a7484aa, 0x5cb0a9dc, 0x76f988da] @
     [0x983e5152, 0xa831c66d, 0xb00327c8, 0xbf597fc7] @
     [0xc6e00bf3, 0xd5a79147, 0x06ca6351, 0x14292967] @
     [0x27b70a85, 0x2e1b2138, 0x4d2c6dfc, 0x53380d13] @
     [0x650a7354, 0x766a0abb, 0x81c2c92e, 0x92722c85] @
     [0xa2bfe8a1, 0xa81a664b, 0xc24b8b70, 0xc76c51a3] @
     [0xd192e819, 0xd6990624, 0xf40e3585, 0x106aa070] @
     [0x19a4c116, 0x1e376c08, 0x2748774c, 0x34b0bcb5] @
     [0x391c0cb3, 0x4ed8aa4a, 0x5b9cca4f, 0x682e6ff3] @
     [0x748f82ee, 0x78a5636f, 0x84c87814, 0x8cc70208] @
     [0x90befffa, 0xa4506ceb, 0xbef9a3f7, 0xc67178f2]"

definition sha256_h0 :: "32 word list" where
  "sha256_h0 =
    [0x6a09e667, 0xbb67ae85, 0x3c6ef372, 0xa54ff53a, 0x510e527f, 0x9b05688c, 0x1f83d9ab, 0x5be0cd19]"

definition small_sigma0 :: "32 word \<Rightarrow> 32 word" where
  "small_sigma0 x = word_rotr 7 x XOR word_rotr 18 x XOR drop_bit 3 x"

definition small_sigma1 :: "32 word \<Rightarrow> 32 word" where
  "small_sigma1 x = word_rotr 17 x XOR word_rotr 19 x XOR drop_bit 10 x"

definition big_sigma0 :: "32 word \<Rightarrow> 32 word" where
  "big_sigma0 x = word_rotr 2 x XOR word_rotr 13 x XOR word_rotr 22 x"

definition big_sigma1 :: "32 word \<Rightarrow> 32 word" where
  "big_sigma1 x = word_rotr 6 x XOR word_rotr 11 x XOR word_rotr 25 x"

definition ch :: "32 word \<Rightarrow> 32 word \<Rightarrow> 32 word \<Rightarrow> 32 word" where
  "ch x y z = (x AND y) XOR (NOT x AND z)"

definition maj :: "32 word \<Rightarrow> 32 word \<Rightarrow> 32 word \<Rightarrow> 32 word" where
  "maj x y z = (x AND y) XOR (x AND z) XOR (y AND z)"

text \<open>Big-endian conversions between bytes and words.\<close>

definition be_word :: "nat \<Rightarrow> 32 word" where
  "be_word n = of_nat n"

fun be_words :: "bytes \<Rightarrow> 32 word list" where
  "be_words (a # b # c # d # rest) =
     be_word (((of_char a * 256 + of_char b) * 256 + of_char c) * 256 + of_char d) # be_words rest"
| "be_words _ = []"

definition be_bytes :: "nat \<Rightarrow> nat \<Rightarrow> bytes" where
  "be_bytes len n = map (\<lambda>i. char_of (n div 256 ^ i)) (rev [0..<len])"

text \<open>Padding: a 1 bit, zero bits up to 56 modulo 64 bytes, then the bit length in 8 bytes.\<close>

definition sha256_pad :: "bytes \<Rightarrow> bytes" where
  "sha256_pad m =
     m @ [char_of (128 :: nat)]
       @ replicate ((64 - (length m + 9) mod 64) mod 64) (char_of (0 :: nat))
       @ be_bytes 8 (8 * length m)"

text \<open>The message schedule: 16 words of the block extended to 64.\<close>

fun sha256_schedule :: "nat \<Rightarrow> 32 word list \<Rightarrow> 32 word list" where
  "sha256_schedule 0 w = w"
| "sha256_schedule (Suc n) w =
     sha256_schedule n
       (w @ [small_sigma1 (w ! (length w - 2)) + w ! (length w - 7)
               + small_sigma0 (w ! (length w - 15)) + w ! (length w - 16)])"

text \<open>One round on the working variables \<open>[a, b, c, d, e, f, g, h]\<close>.\<close>

fun sha256_round :: "32 word list \<Rightarrow> 32 word \<times> 32 word \<Rightarrow> 32 word list" where
  "sha256_round [a, b, c, d, e, f, g, h] (k, w) =
     (let t1 = h + big_sigma1 e + ch e f g + k + w;
          t2 = big_sigma0 a + maj a b c
      in [t1 + t2, a, b, c, d + t1, e, f, g])"
| "sha256_round v _ = v"

definition sha256_block :: "32 word list \<Rightarrow> 32 word list \<Rightarrow> 32 word list" where
  "sha256_block hs block =
     map2 (+) hs (foldl sha256_round hs (zip sha256_k (sha256_schedule 48 block)))"

fun chunks :: "nat \<Rightarrow> 'a list \<Rightarrow> 'a list list" where
  "chunks 0 xs = []"
| "chunks (Suc n) xs =
     (if xs = [] then [] else take (Suc n) xs # chunks (Suc n) (drop (Suc n) xs))"

definition sha256 :: "bytes \<Rightarrow> bytes" where
  "sha256 m =
     concat (map (\<lambda>w. be_bytes 4 (unat w))
       (foldl sha256_block sha256_h0 (chunks 16 (be_words (sha256_pad m)))))"

definition xor_bytes :: "nat \<Rightarrow> bytes \<Rightarrow> bytes" where
  "xor_bytes p s = map (\<lambda>c. char_of ((of_char c :: nat) XOR p)) s"

text \<open>
  \<^verbatim>\<open>hmac.digest(key, msg, 'sha256')\<close>: a key longer than the 64-byte block is hashed
  first, the key is padded with zero bytes to the block, and the digest is
  \<open>H((K xor opad) || H((K xor ipad) || msg))\<close>.
\<close>

definition hmac_sha256 :: "bytes \<Rightarrow> bytes \<Rightarrow> bytes" where
  "hmac_sha256 key msg =
     (let k0 = (if 64 < length key then sha256 key else key);
          k = k0 @ replicate (64 - length k0) (char_of (0 :: nat))
      in sha256 (xor_bytes 0x5c k @ sha256 (xor_bytes 0x36 k @ msg)))"

subsection \<open>Floating-point numbers and \<^verbatim>\<open>random.uniform\<close>\<close>

text \<open>
  A Python float is an IEEE 754 double: a finite one is a rational number, and the only
  other values that the program can produce are the two infinities
  (\<open>Infinite True\<close> is \<^verbatim>\<open>inf\<close>, \<open>Infinite False\<close> is \<^verbatim>\<open>-inf\<close>).
\<close>

datatype pyfloat = Finite rat | Infinite bool

text \<open>\<^verbatim>\<open>int.bit_length\<close> of a natural number.\<close>

function bit_length :: "nat \<Rightarrow> nat" where
  "bit_length n = (if n = 0 then 0 else Suc (bit_length (n div 2)))"
  by pat_completeness auto
termination
  by (relation "measure (\<lambda>n. n)") auto

declare bit_length.simps [simp del]

text \<open>Rounding to the nearest integer, a tie to the even one.\<close>

definition round_half_even :: "rat \<Rightarrow> int" where
  "round_half_even y =
     (let f = \<lfloor>y\<rfloor>; r = y - of_int f
      in if r < 1 / 2 then f else if 1 / 2 < r then f + 1 else if even f then f else f + 1)"

text \<open>
  The double nearest to a rational number \<open>x \<ge> 0\<close>, before the test for overflow. Every
  double is a multiple of 2 to the power -1074; in units of that, \<open>x\<close> is \<open>y\<close>, and it is rounded to
  an integer of at most 53 bits times a power of two.
\<close>

definition round_magnitude :: "rat \<Rightarrow> rat" where
  "round_magnitude x =
     (let y = x * 2 ^ 1074; s = bit_length (nat \<lfloor>y\<rfloor>) - 53
      in of_int (round_half_even (y / 2 ^ s)) * 2 ^ s / 2 ^ 1074)"

definition round_rat :: "rat \<Rightarrow> rat" where
  "round_rat x = (if x < 0 then - round_magnitude (- x) else round_magnitude x)"

text \<open>
  The result of a floating-point operation whose exact result is \<open>x\<close>: round to nearest,
  ties to even, and a rounded value of magnitude \<open>2 ^ 1024\<close> or more is an infinity.
\<close>

definition double_round :: "rat \<Rightarrow> pyfloat" where
  "double_round x =
     (let r = round_rat x in if 2 ^ 1024 \<le> \<bar>r\<bar> then Infinite (0 < x) else Finite r)"

text \<open>
  The conversion of a Python integer to a float, as arithmetic between an integer and
  a float performs it: the same rounding, but an integer too large for a double raises
  \<^verbatim>\<open>OverflowError\<close>.
\<close>

definition py_float_of_int :: "int \<Rightarrow> exn + rat" where
  "py_float_of_int n =
     (case double_round (of_int n) of Infinite s \<Rightarrow> Inl OverflowError | Finite r \<Rightarrow> Inr r)"

definition float_mul :: "rat \<Rightarrow> rat \<Rightarrow> pyfloat" where
  "float_mul x y = double_round (x * y)"

fun float_add :: "rat \<Rightarrow> pyfloat \<Rightarrow> pyfloat" where
  "float_add x (Finite y) = double_round (x + y)"
| "float_add x (Infinite s) = Infinite s"

text \<open>
  \<^verbatim>\<open>random.uniform(a, b)\<close> is \<^verbatim>\<open>a + (b - a) * self.random()\<close>, with \<open>u\<close> the value of
  \<^verbatim>\<open>self.random()\<close>. The boundaries are Python integers, so \<open>b - a\<close> is exact; the
  product converts \<open>b - a\<close> to a float, the sum converts \<open>a\<close>, and either conversion can
  raise.
\<close>

definition py_uniform :: "int \<Rightarrow> int \<Rightarrow> rat \<Rightarrow> exn + pyfloat" where
  "py_uniform a b u =
     (case py_float_of_int (b - a) of
        Inl e \<Rightarrow> Inl e
      | Inr d \<Rightarrow>
          (let p = float_mul d u
           in case py_float_of_int a of
                Inl e \<Rightarrow> Inl e
              | Inr fa \<Rightarrow> Inr (float_add fa p)))"

section \<open>The request signer\<close>

text \<open>
  \<^verbatim>\<open>AutoTaker.sign_request\<close>. The first argument \<open>now\<close> is the value of the expression
  \<^verbatim>\<open>time.time() * 1000\<close> at the call, the clock reading in milliseconds. The
  \<^verbatim>\<open>.encode('utf-8')\<close> calls are the identity on the model's strings.
  \<^verbatim>\<open>base64.b64decode\<close> may raise; nothing in the method catches it.
\<close>

definition sign_request :: "rat \<Rightarrow> string \<Rightarrow> string \<Rightarrow> string \<Rightarrow> string \<Rightarrow> exn + (bytes \<times> bytes)" where
  "sign_request now paradigm_secret_key method path body =
     (case b64decode paradigm_secret_key of
        Inl e \<Rightarrow> Inl e
      | Inr signing_key \<Rightarrow>
          (let timestamp = py_str_int (py_int_of_float now);
               message = bytes_join [CHR 0x0A] [timestamp, bytes_upper method, path, body];
               digest = hmac_sha256 signing_key message;
               signature = b64encode digest
           in Inr (timestamp, signature)))"

text \<open>\<^verbatim>\<open>AutoTaker.create_rest_headers\<close>: the three headers, in the dict's order.\<close>

definition create_rest_headers ::
  "AutoTaker \<Rightarrow> rat \<Rightarrow> string \<Rightarrow> string \<Rightarrow> string \<Rightarrow> exn + (string \<times> string) list" where
  "create_rest_headers self now method path body =
     (case sign_request now (paradigm_taker_secret_key self) method path body of
        Inl e \<Rightarrow> Inl e
      | Inr (timestamp, signature) \<Rightarrow>
          Inr [(''Paradigm-API-Timestamp'', timestamp),
               (''Paradigm-API-Signature'', signature),
               (''Authorization'', ''Bearer '' @ paradigm_taker_access_key self)])"

section \<open>The venue client\<close>

text \<open>
  Everything outside the program is a parameter, collected in the record \<open>world\<close>:
  \<^item> \<open>module_paradigm_http_url\<close>: the module-level global \<^verbatim>\<open>paradigm_http_url\<close>, which is
    only bound when the file runs as a script (\<open>None\<close>: the name is unbound);
  \<^item> \<open>json_dumps\<close>: \<^verbatim>\<open>json.dumps\<close> on an order payload;
  \<^item> \<open>int_of_str\<close>: \<^verbatim>\<open>int(s)\<close> on a configuration string;
  \<^item> \<open>random_draw r\<close>: the value of \<^verbatim>\<open>random()\<close> drawn in round \<open>r\<close>;
  \<^item> \<open>get_clock\<close>, \<open>post_clock r i\<close>: the value of \<^verbatim>\<open>time.time() * 1000\<close> when the listing
    request, and the request for payload \<open>i\<close> of round \<open>r\<close>, is signed;
  \<^item> \<open>get_reply\<close>, \<open>post_reply r i\<close>: what the venue and the network do with that request.

  A reply is either an exception raised by \<^verbatim>\<open>session.get\<close>/\<^verbatim>\<open>session.post\<close>, or a
  response with its status code and the outcome of \<^verbatim>\<open>await response.json(...)\<close> on it,
  which returns the decoded body or raises.
\<close>

datatype http_reply =
    HttpRaises exn
  | HttpResponse int "exn + py"

record world =
  module_paradigm_http_url :: "string option"
  json_dumps :: "(string \<times> py) list \<Rightarrow> string"
  int_of_str :: "string \<Rightarrow> exn + int"
  random_draw :: "nat \<Rightarrow> rat"
  get_clock :: rat
  post_clock :: "nat \<Rightarrow> nat \<Rightarrow> rat"
  get_reply :: http_reply
  post_reply :: "nat \<Rightarrow> nat \<Rightarrow> http_reply"

text \<open>
  What the program does to the outside: log records (the message template, with the
  interpolated values as arguments), the two kinds of HTTP call with URL, headers and
  JSON payload, and \<^verbatim>\<open>asyncio.sleep\<close> with its duration.
\<close>

datatype event =
    LogInfo string "py list"
  | LogError string "py list"
  | HttpGet string "(string \<times> string) list"
  | HttpPost string "(string \<times> string) list" "(string \<times> py) list"
  | Sleep pyfloat

text \<open>
  The \<^verbatim>\<open>try ... except aiohttp.ClientConnectorError\<close> of \<^verbatim>\<open>post_order\<close>: that
  exception is logged and swallowed, any other one propagates.
\<close>

definition post_order_except :: "event list \<Rightarrow> exn \<Rightarrow> event list \<times> (exn + unit)" where
  "post_order_except evs e =
     (if e = ClientConnectorError
      then (evs @ [LogInfo ''[POST] /orders ClientConnectorError: {e}'' []], Inr ())
      else (evs, Inl e))"

text \<open>
  \<^verbatim>\<open>AutoTaker.post_order\<close> for payload \<open>i\<close> of round \<open>r\<close>. The headers are built before the
  \<^verbatim>\<open>try\<close>; the URL is read from the module-level global; \<^verbatim>\<open>response.json\<close> is awaited
  before the status code is looked at.
\<close>

definition post_order ::
  "world \<Rightarrow> AutoTaker \<Rightarrow> nat \<Rightarrow> nat \<Rightarrow> (string \<times> py) list \<Rightarrow> event list \<times> (exn + unit)" where
  "post_order w self r i payload =
     (let method = ''POST''; path = ''/v1/fs/orders''; body = json_dumps w payload
      in case create_rest_headers self (post_clock w r i) method path body of
           Inl e \<Rightarrow> ([], Inl e)
         | Inr headers \<Rightarrow>
             (case module_paradigm_http_url w of
                None \<Rightarrow> post_order_except [] NameError
              | Some url \<Rightarrow>
                  (let call = [HttpPost (url @ path) headers payload]
                   in case post_reply w r i of
                        HttpRaises e \<Rightarrow> post_order_except call e
                      | HttpResponse status_code js \<Rightarrow>
                          (case js of
                             Inl e \<Rightarrow> post_order_except call e
                           | Inr response \<Rightarrow>
                               (if status_code = 201
                                then (call @ [LogInfo ''Order Create {status_code} | Response: {response}''
                                                [PyInt status_code, response]], Inr ())
                                else (call @ [LogInfo ''Unable to [POST] /orders'' [],
                                              LogInfo ''Status Code: {status_code}'' [PyInt status_code],
                                              LogInfo ''Response Text: {response}'' [response],
                                              LogInfo ''Order Payload: {order_payload}'' [PyDict payload]],
                                      Inr ()))))))"

text \<open>
  \<^verbatim>\<open>AutoTaker.get_strategies\<close>. There is no \<^verbatim>\<open>try\<close>. On a status other than 200 the
  method logs three error records and then returns \<^verbatim>\<open>response\<close>, which is still the
  \<^verbatim>\<open>ClientResponse\<close> object.
\<close>

definition get_strategies :: "world \<Rightarrow> AutoTaker \<Rightarrow> event list \<times> (exn + py)" where
  "get_strategies w self =
     (let method = ''GET''; path = ''/v1/fs/strategies?page_size=100''; payload = ''''
      in case create_rest_headers self (get_clock w) method path payload of
           Inl e \<Rightarrow> ([], Inl e)
         | Inr headers \<Rightarrow>
             (case module_paradigm_http_url w of
                None \<Rightarrow> ([], Inl NameError)
              | Some url \<Rightarrow>
                  (let call = [HttpGet (url @ path) headers]
                   in case get_reply w of
                        HttpRaises e \<Rightarrow> (call, Inl e)
                      | HttpResponse status_code js \<Rightarrow>
                          (if status_code = 200
                           then (case js of
                                   Inl e \<Rightarrow> (call, Inl e)
                                 | Inr response \<Rightarrow> (call, Inr response))
                           else (call @ [LogError ''Unable to [GET] /strategies'' [],
                                         LogError ''Status Code: {status_code}'' [PyInt status_code],
                                         LogError ''Response Text: {response}''
                                           [PyClientResponse status_code]],
                                 Inr (PyClientResponse status_code))))))"

text \<open>
  Subscripting with a string key, and iteration, on a dynamically typed value. Only a
  dict can be subscripted with a string: a missing key raises \<^verbatim>\<open>KeyError\<close>, every
  other kind of value raises \<^verbatim>\<open>TypeError\<close>. Iterating a dict yields its keys,
  iterating a string its characters.
\<close>

fun py_getitem :: "py \<Rightarrow> string \<Rightarrow> exn + py" where
  "py_getitem (PyDict d) k = (case map_of d k of None \<Rightarrow> Inl KeyError | Some v \<Rightarrow> Inr v)"
| "py_getitem v k = Inl TypeError"

fun py_iter :: "py \<Rightarrow> exn + py list" where
  "py_iter (PyList xs) = Inr xs"
| "py_iter (PyDict d) = Inr (map (\<lambda>kv. PyStr (fst kv)) d)"
| "py_iter (PyStr s) = Inr (map (\<lambda>c. PyStr [c]) s)"
| "py_iter v = Inl TypeError"

text \<open>The \<^verbatim>\<open>for strategy in response['results']\<close> loop of \<^verbatim>\<open>ingest_available_strategies\<close>.\<close>

fun ingest_loop :: "Strategy list \<Rightarrow> py list \<Rightarrow> exn + Strategy list" where
  "ingest_loop available_strategies [] = Inr available_strategies"
| "ingest_loop available_strategies (strategy # rest) =
     (case py_getitem strategy ''id'' of
        Inl e \<Rightarrow> Inl e
      | Inr i \<Rightarrow>
          (case py_getitem strategy ''min_block_size'' of
             Inl e \<Rightarrow> Inl e
           | Inr m \<Rightarrow>
               ingest_loop
                 (available_strategies @ [\<lparr>Strategy_id = i, Strategy_min_block_size = m\<rparr>])
                 rest))"

definition ingest_available_strategies ::
  "world \<Rightarrow> AutoTaker \<Rightarrow> event list \<times> (exn + Strategy list)" where
  "ingest_available_strategies w self =
     (case get_strategies w self of
        (evs, Inl e) \<Rightarrow> (evs, Inl e)
      | (evs, Inr response) \<Rightarrow>
          (case py_getitem response ''results'' of
             Inl e \<Rightarrow> (evs, Inl e)
           | Inr results \<Rightarrow>
               (case py_iter results of
                  Inl e \<Rightarrow> (evs, Inl e)
                | Inr items \<Rightarrow> (evs, ingest_loop [] items))))"

section \<open>The submission scheduler\<close>

text \<open>
  \<^verbatim>\<open>asyncio.gather(*submitted_orders)\<close> without \<^verbatim>\<open>return_exceptions\<close>: when every task
  returns, so does \<^verbatim>\<open>gather\<close>; when a task raises, the exception is raised in the
  awaiting coroutine. The tasks' events are listed task by task, in the order the tasks
  were created: how the tasks interleave is not modelled.
\<close>

definition gather :: "(event list \<times> (exn + unit)) list \<Rightarrow> event list \<times> (exn + unit)" where
  "gather results =
     (concat (map fst results),
      case filter isl (map snd results) of [] \<Rightarrow> Inr () | x # _ \<Rightarrow> x)"

text \<open>
  How a run stands: \<open>Raised e\<close> when the exception \<open>e\<close> left \<^verbatim>\<open>manager\<close> (and so the
  constructor and the process); \<open>Asleep\<close> when the run is in an \<^verbatim>\<open>asyncio.sleep\<close> that
  never ends; \<open>Looping\<close> when the observed rounds all completed and the \<^verbatim>\<open>while True\<close>
  loop is about to start the next one. The loop has no exit.
\<close>

datatype run = Looping | Asleep | Raised exn

text \<open>
  The \<^verbatim>\<open>while True\<close> loop of \<^verbatim>\<open>manager\<close>, observed for \<open>fuel\<close> rounds starting with round
  \<open>r\<close>: one task per element of \<^verbatim>\<open>self.order_payloads\<close>, the \<^verbatim>\<open>gather\<close>, then
  \<^verbatim>\<open>uniform\<close>, which can raise, and the sleep. \<^verbatim>\<open>asyncio.sleep\<close> returns at once for a
  delay that is not positive, and never for the delay \<^verbatim>\<open>inf\<close>.
\<close>

fun manager_loop :: "world \<Rightarrow> AutoTaker \<Rightarrow> nat \<Rightarrow> nat \<Rightarrow> event list \<times> run" where
  "manager_loop w self r 0 = ([], Looping)"
| "manager_loop w self r (Suc fuel) =
     (case gather (map (\<lambda>(i, order). post_order w self r i (order_payload order))
                       (enumerate 0 (order_payloads self))) of
        (evs, Inl e) \<Rightarrow> (evs, Raised e)
      | (evs, Inr u) \<Rightarrow>
          (case py_uniform (order_submission_lower_boundary self)
                  (order_submission_higher_boundary self) (random_draw w r) of
             Inl e \<Rightarrow> (evs, Raised e)
           | Inr delay \<Rightarrow>
               (if delay = Infinite True then (evs @ [Sleep delay], Asleep)
                else (let next_rounds = manager_loop w self (Suc r) fuel
                      in (evs @ [Sleep delay] @ fst next_rounds, snd next_rounds)))))"

text \<open>\<^verbatim>\<open>AutoTaker.manager\<close>: ingest once, build the payloads once, then loop.\<close>

definition manager :: "world \<Rightarrow> nat \<Rightarrow> AutoTaker \<Rightarrow> event list \<times> run" where
  "manager w fuel self =
     (case ingest_available_strategies w self of
        (evs, Inl e) \<Rightarrow> (evs, Raised e)
      | (evs, Inr strategies) \<Rightarrow>
          (let self1 = self\<lparr>availabile_strateies := strategies\<rparr>;
               self2 = self1\<lparr>order_payloads := construct_order_payloads self1\<rparr>;
               rounds = manager_loop w self2 0 fuel
           in (evs @ fst rounds, snd rounds)))"

text \<open>
  \<^verbatim>\<open>AutoTaker.__init__\<close>: the seven constructor arguments are stored (three of them
  through \<^verbatim>\<open>int\<close>), then \<^verbatim>\<open>manager\<close> runs on the event loop. The two list attributes
  do not exist before \<^verbatim>\<open>manager\<close> assigns them.
\<close>

definition AutoTaker_init ::
  "world \<Rightarrow> nat \<Rightarrow> string \<Rightarrow> string \<Rightarrow> string \<Rightarrow> string \<Rightarrow> string \<Rightarrow> string \<Rightarrow> string
     \<Rightarrow> event list \<times> run" where
  "AutoTaker_init w fuel url account_name access_key secret_key number lower higher =
     (case int_of_str w number of
        Inl e \<Rightarrow> ([], Raised e)
      | Inr n \<Rightarrow>
          (case int_of_str w lower of
             Inl e \<Rightarrow> ([], Raised e)
           | Inr lo \<Rightarrow>
               (case int_of_str w higher of
                  Inl e \<Rightarrow> ([], Raised e)
                | Inr hi \<Rightarrow>
                    manager w fuel
                      \<lparr>paradigm_http_url = url,
                       paradigm_taker_account_name = account_name,
                       paradigm_taker_access_key = access_key,
                       paradigm_taker_secret_key = secret_key,
                       order_number_per_strategy = n,
                       order_submission_lower_boundary = lo,
                       order_submission_higher_boundary = hi,
                       availabile_strateies = [],
                       order_payloads = []\<rparr>)))"

section \<open>Observations on a run, and example inputs\<close>

text \<open>The URLs of the HTTP calls among a list of events, in order.\<close>

fun event_url :: "event \<Rightarrow> string option" where
  "event_url (HttpGet url headers) = Some url"
| "event_url (HttpPost url headers payload) = Some url"
| "event_url ev = None"

definition request_urls :: "event list \<Rightarrow> string list" where
  "request_urls evs = List.map_filter event_url evs"

text \<open>The order submissions among a list of events.\<close>

fun is_submission :: "event \<Rightarrow> bool" where
  "is_submission (HttpPost url headers payload) = True"
| "is_submission ev = False"

text \<open>Two strategies and an instance, used to evaluate the program on concrete inputs.\<close>

definition example_strategies :: "Strategy list" where
  "example_strategies =
     [\<lparr>Strategy_id = PyStr ''s1'', Strategy_min_block_size = PyInt 5\<rparr>,
      \<lparr>Strategy_id = PyStr ''s2'', Strategy_min_block_size = PyInt 1\<rparr>]"

definition example_taker :: AutoTaker where
  "example_taker =
     \<lparr>paradigm_http_url = ''https://api.fs.test.paradigm.co'',
      paradigm_taker_account_name = ''acct'',
      paradigm_taker_access_key = ''access'',
      paradigm_taker_secret_key = ''YWJj'',
      order_number_per_strategy = 1,
      order_submission_lower_boundary = 1,
      order_submission_higher_boundary = 1,
      availabile_strateies = [],
      order_payloads = []\<rparr>"

text \<open>A world in which the venue lists no strategy and accepts every order.\<close>

definition example_world :: world where
  "example_world =
     \<lparr>module_paradigm_http_url = Some ''https://api.fs.test.paradigm.co'',
      json_dumps = (\<lambda>payload. ''{}''),
      int_of_str = (\<lambda>s. Inr 1),
      random_draw = (\<lambda>r. 1 / 2),
      get_clock = 1700000000000,
      post_clock = (\<lambda>r i. 1700000000000),
      get_reply = HttpResponse 200 (Inr (PyDict [(''results'', PyList [])])),
      post_reply = (\<lambda>r i. HttpResponse 201 (Inr (PyDict [])))\<rparr>"

text \<open>
  Variants: the venue answers the listing with status 500; the venue answers the second
  order of every round with status 502 and a body that is not JSON; an instance as
  \<^verbatim>\<open>manager\<close> leaves it after the two assignments, for the two example strategies.
\<close>

definition example_world_500 :: world where
  "example_world_500 = example_world\<lparr>get_reply := HttpResponse 500 (Inl JSONDecodeError)\<rparr>"

definition example_world_502 :: world where
  "example_world_502 =
     example_world\<lparr>post_reply :=
       (\<lambda>r i. if i = 1 then HttpResponse 502 (Inl JSONDecodeError)
              else HttpResponse 201 (Inr (PyDict [])))\<rparr>"

definition example_taker_ready :: AutoTaker where
  "example_taker_ready =
     example_taker\<lparr>availabile_strateies := example_strategies,
                    order_payloads :=
                      construct_order_payloads
                        (example_taker\<lparr>availabile_strateies := example_strategies\<rparr>)\<rparr>"

text \<open>An instance whose two boundaries are beyond the range of a double.\<close>

definition example_taker_huge :: AutoTaker where
  "example_taker_huge =
     example_taker\<lparr>order_submission_lower_boundary := 10 ^ 400,
                    order_submission_higher_boundary := 10 ^ 400\<rparr>"

text \<open>What one strategy contributes: its BUY intent, then its SELL intent.\<close>

definition intents_of :: "string \<Rightarrow> Strategy \<Rightarrow> Order list" where
  "intents_of acct s =
     [Order_init (Strategy_id s) ''BUY'' (Strategy_min_block_size s) acct,
      Order_init (Strategy_id s) ''SELL'' (Strategy_min_block_size s) acct]"

section \<open>Notions of the specification\<close>

text \<open>
  The specification speaks of the decimal ASCII rendering of a number and of valid
  standard base64. Both are defined here on their own, to compare the program with:
  \<open>decimal_value\<close> reads a string of decimal digits, with an optional leading minus sign,
  as the number it denotes; \<open>standard_base64\<close> holds of the strings of RFC 4648,
  section 4: groups of four alphabet characters, of which the last may end in one or
  two \<^verbatim>\<open>=\<close>.
\<close>

definition is_digit :: "char \<Rightarrow> bool" where
  "is_digit c = (48 \<le> (of_char c :: nat) \<and> (of_char c :: nat) \<le> 57)"

definition digits_value :: "string \<Rightarrow> nat" where
  "digits_value s = foldl (\<lambda>acc c. 10 * acc + ((of_char c :: nat) - 48)) 0 s"

definition decimal_value :: "string \<Rightarrow> int" where
  "decimal_value s =
     (case s of
        [] \<Rightarrow> 0
      | c # cs \<Rightarrow> if c = CHR ''-'' then - int (digits_value cs) else int (digits_value s))"



section \<open>The payload builder\<close>

lemma construct_foldl_acc:
  "foldl (\<lambda>order_payloads strategy.
            foldl (\<lambda>order_payloads side.
                     order_payloads @
                       [Order_init (Strategy_id strategy) (TradeAction_name side)
                          (Strategy_min_block_size strategy) acct])
                  order_payloads TradeAction_members)
         acc ss
   = acc @ concat (map (intents_of acct) ss)"
  by (induction ss arbitrary: acc) (simp_all add: TradeAction_members_def intents_of_def)

lemma construct_order_payloads_concat:
  "construct_order_payloads self =
     concat (map (intents_of (paradigm_taker_account_name self)) (availabile_strateies self))"
  by (simp add: construct_order_payloads_def construct_foldl_acc)









section \<open>Which fields of the instance a run reads\<close>

lemma create_rest_headers_fields:
  assumes "paradigm_taker_secret_key self' = paradigm_taker_secret_key self"
    and "paradigm_taker_access_key self' = paradigm_taker_access_key self"
  shows "create_rest_headers self' now method path body = create_rest_headers self now method path body"
  using assms by (simp add: create_rest_headers_def split: sum.splits prod.splits)

lemma post_order_fields:
  assumes "paradigm_taker_secret_key self' = paradigm_taker_secret_key self"
    and "paradigm_taker_access_key self' = paradigm_taker_access_key self"
  shows "post_order w self' r i payload = post_order w self r i payload"
  by (simp add: post_order_def create_rest_headers_fields [OF assms])

lemma get_strategies_fields:
  assumes "paradigm_taker_secret_key self' = paradigm_taker_secret_key self"
    and "paradigm_taker_access_key self' = paradigm_taker_access_key self"
  shows "get_strategies w self' = get_strategies w self"
  by (simp add: get_strategies_def create_rest_headers_fields [OF assms])

lemma ingest_available_strategies_fields:
  assumes "paradigm_taker_secret_key self' = paradigm_taker_secret_key self"
    and "paradigm_taker_access_key self' = paradigm_taker_access_key self"
  shows "ingest_available_strategies w self' = ingest_available_strategies w self"
  by (simp add: ingest_available_strategies_def get_strategies_fields [OF assms])

lemma manager_loop_fields:
  assumes "paradigm_taker_secret_key self' = paradigm_taker_secret_key self"
    and "paradigm_taker_access_key self' = paradigm_taker_access_key self"
    and "order_submission_lower_boundary self' = order_submission_lower_boundary self"
    and "order_submission_higher_boundary self' = order_submission_higher_boundary self"
    and "order_payloads self' = order_payloads self"
  shows "manager_loop w self' r fuel = manager_loop w self r fuel"
proof (induction fuel arbitrary: r)
  case 0
  show ?case by simp
next
  case (Suc fuel)
  have "post_order w self' r i p = post_order w self r i p" for i p
    using assms(1,2) by (rule post_order_fields)
  then show ?case
    using assms(3,4,5) Suc.IH
    by (simp add: Let_def cong: sum.case_cong prod.case_cong if_cong)
qed

lemma construct_order_payloads_fields:
  assumes "paradigm_taker_account_name self' = paradigm_taker_account_name self"
    and "availabile_strateies self' = availabile_strateies self"
  shows "construct_order_payloads self' = construct_order_payloads self"
  using assms by (simp add: construct_order_payloads_def)

lemma manager_fields:
  assumes "paradigm_taker_secret_key self' = paradigm_taker_secret_key self"
    and "paradigm_taker_access_key self' = paradigm_taker_access_key self"
    and "order_submission_lower_boundary self' = order_submission_lower_boundary self"
    and "order_submission_higher_boundary self' = order_submission_higher_boundary self"
    and "paradigm_taker_account_name self' = paradigm_taker_account_name self"
  shows "manager w fuel self' = manager w fuel self"
proof -
  have i: "ingest_available_strategies w self' = ingest_available_strategies w self"
    using assms(1,2) by (rule ingest_available_strategies_fields)
  have l: "manager_loop w
             (self'\<lparr>availabile_strateies := ss,
                    order_payloads := construct_order_payloads (self'\<lparr>availabile_strateies := ss\<rparr>)\<rparr>)
             0 fuel
         = manager_loop w
             (self\<lparr>availabile_strateies := ss,
                   order_payloads := construct_order_payloads (self\<lparr>availabile_strateies := ss\<rparr>)\<rparr>)
             0 fuel" for ss
    by (rule manager_loop_fields) (simp_all add: assms construct_order_payloads_def)
  show ?thesis
    unfolding manager_def i by (simp add: l Let_def split: prod.splits sum.splits)
qed

text \<open>
  Claim C7. The payload builder does not read \<^verbatim>\<open>self.order_number_per_strategy\<close>: for
  any two values of it the intent lists are identical, each strategy contributes
  exactly one BUY and one SELL intent, and the whole run of \<^verbatim>\<open>manager\<close> is the same.
\<close>

theorem construct_order_payloads_ignores_order_number:
  "construct_order_payloads (self\<lparr>order_number_per_strategy := n1\<rparr>)
     = construct_order_payloads (self\<lparr>order_number_per_strategy := n2\<rparr>)
   \<and> construct_order_payloads (self\<lparr>order_number_per_strategy := n1\<rparr>)
     = concat (map (\<lambda>s. [Order_init (Strategy_id s) ''BUY'' (Strategy_min_block_size s)
                             (paradigm_taker_account_name self),
                           Order_init (Strategy_id s) ''SELL'' (Strategy_min_block_size s)
                             (paradigm_taker_account_name self)])
                   (availabile_strateies self))
   \<and> manager w fuel (self\<lparr>order_number_per_strategy := n1\<rparr>)
     = manager w fuel (self\<lparr>order_number_per_strategy := n2\<rparr>)"
proof -
  have a: "construct_order_payloads (self\<lparr>order_number_per_strategy := n\<rparr>)
             = construct_order_payloads self" for n
    by (rule construct_order_payloads_fields) simp_all
  have b: "construct_order_payloads self
             = concat (map (intents_of (paradigm_taker_account_name self)) (availabile_strateies self))"
    by (rule construct_order_payloads_concat)
  have c: "manager w fuel (self\<lparr>order_number_per_strategy := n\<rparr>) = manager w fuel self" for n
    by (rule manager_fields) simp_all
  have d: "intents_of acct = (\<lambda>s. [Order_init (Strategy_id s) ''BUY'' (Strategy_min_block_size s) acct,
                                    Order_init (Strategy_id s) ''SELL'' (Strategy_min_block_size s) acct])"
    for acct
    by (simp add: fun_eq_iff intents_of_def)
  show ?thesis
    by (simp only: a c) (simp add: b d)
qed

text \<open>
  Claim C10. The payload of an order has the key \<^verbatim>\<open>price\<close> exactly when the order's
  price is truthy, that is neither \<^verbatim>\<open>None\<close> nor the empty string, and its value is then
  that price; the keys \<^verbatim>\<open>account_name\<close>, \<^verbatim>\<open>strategy_id\<close>, \<^verbatim>\<open>type\<close>, \<^verbatim>\<open>amount\<close> and
  \<^verbatim>\<open>side\<close> are always present, with the order's fields as values.
\<close>

theorem order_payload_price_key:
  "(''price'' \<in> set (map fst (order_payload self))) = price_truthy (Order_price self)
   \<and> price_truthy (Order_price self) = (Order_price self \<noteq> None \<and> Order_price self \<noteq> Some [])
   \<and> map_of (order_payload self) ''price'' =
        (if price_truthy (Order_price self) then Some (PyStr (the (Order_price self))) else None)
   \<and> map_of (order_payload self) ''account_name'' = Some (PyStr (Order_account_name self))
   \<and> map_of (order_payload self) ''strategy_id'' = Some (Order_id self)
   \<and> map_of (order_payload self) ''type'' = Some (PyStr (Order_type self))
   \<and> map_of (order_payload self) ''amount'' = Some (Order_amount self)
   \<and> map_of (order_payload self) ''side'' = Some (PyStr (Order_side self))"
proof (cases "Order_price self")
  case None
  then show ?thesis by (simp add: order_payload_def)
next
  case (Some p)
  then show ?thesis by (cases "p = []") (simp_all add: order_payload_def)
qed

section \<open>The URLs of the requests\<close>

lemma request_urls_post_order:
  "request_urls (fst (post_order w self r i payload)) =
     (case create_rest_headers self (post_clock w r i) ''POST'' ''/v1/fs/orders'' (json_dumps w payload) of
        Inl e \<Rightarrow> []
      | Inr headers \<Rightarrow>
          (case module_paradigm_http_url w of
             None \<Rightarrow> []
           | Some url \<Rightarrow> [url @ ''/v1/fs/orders'']))"
  by (simp add: post_order_def post_order_except_def request_urls_def List.map_filter_simps Let_def
      split: sum.splits option.splits http_reply.splits)

lemma request_urls_get_strategies:
  "request_urls (fst (get_strategies w self)) =
     (case create_rest_headers self (get_clock w) ''GET'' ''/v1/fs/strategies?page_size=100'' [] of
        Inl e \<Rightarrow> []
      | Inr headers \<Rightarrow>
          (case module_paradigm_http_url w of
             None \<Rightarrow> []
           | Some url \<Rightarrow> [url @ ''/v1/fs/strategies?page_size=100'']))"
  by (simp add: get_strategies_def request_urls_def List.map_filter_simps Let_def
      split: sum.splits option.splits http_reply.splits)

text \<open>
  Claim C9. The requests of \<^verbatim>\<open>post_order\<close> and \<^verbatim>\<open>get_strategies\<close> do not depend on the
  \<^verbatim>\<open>paradigm_http_url\<close> argument of the constructor: for any two values of it, with all
  else equal, the two methods and the whole run of the constructor behave identically,
  and the URL of a request is the module-level global \<^verbatim>\<open>paradigm_http_url\<close> followed by
  the path.
\<close>

theorem request_url_ignores_constructor_argument:
  "post_order w (self\<lparr>paradigm_http_url := url1\<rparr>) r i payload
     = post_order w (self\<lparr>paradigm_http_url := url2\<rparr>) r i payload
   \<and> get_strategies w (self\<lparr>paradigm_http_url := url1\<rparr>)
     = get_strategies w (self\<lparr>paradigm_http_url := url2\<rparr>)
   \<and> AutoTaker_init w fuel url1 account_name access_key secret_key number lower higher
     = AutoTaker_init w fuel url2 account_name access_key secret_key number lower higher
   \<and> request_urls (fst (post_order w self r i payload)) =
       (case create_rest_headers self (post_clock w r i) ''POST'' ''/v1/fs/orders''
               (json_dumps w payload) of
          Inl e \<Rightarrow> []
        | Inr headers \<Rightarrow>
            (case module_paradigm_http_url w of
               None \<Rightarrow> []
             | Some url \<Rightarrow> [url @ ''/v1/fs/orders'']))
   \<and> request_urls (fst (get_strategies w self)) =
       (case create_rest_headers self (get_clock w) ''GET'' ''/v1/fs/strategies?page_size=100'' [] of
          Inl e \<Rightarrow> []
        | Inr headers \<Rightarrow>
            (case module_paradigm_http_url w of
               None \<Rightarrow> []
             | Some url \<Rightarrow> [url @ ''/v1/fs/strategies?page_size=100'']))"
proof -
  have p: "post_order w (self\<lparr>paradigm_http_url := u\<rparr>) r i payload = post_order w self r i payload" for u
    by (rule post_order_fields) simp_all
  have g: "get_strategies w (self\<lparr>paradigm_http_url := u\<rparr>) = get_strategies w self" for u
    by (rule get_strategies_fields) simp_all
  have m: "manager w fuel
             \<lparr>paradigm_http_url = url1, paradigm_taker_account_name = account_name,
              paradigm_taker_access_key = access_key, paradigm_taker_secret_key = secret_key,
              order_number_per_strategy = n, order_submission_lower_boundary = lo,
              order_submission_higher_boundary = hi, availabile_strateies = [],
              order_payloads = []\<rparr>
         = manager w fuel
             \<lparr>paradigm_http_url = url2, paradigm_taker_account_name = account_name,
              paradigm_taker_access_key = access_key, paradigm_taker_secret_key = secret_key,
              order_number_per_strategy = n, order_submission_lower_boundary = lo,
              order_submission_higher_boundary = hi, availabile_strateies = [],
              order_payloads = []\<rparr>" for n lo hi
    by (rule manager_fields) simp_all
  have a: "AutoTaker_init w fuel url1 account_name access_key secret_key number lower higher
             = AutoTaker_init w fuel url2 account_name access_key secret_key number lower higher"
    by (simp add: AutoTaker_init_def m split: sum.splits)
  from p [of url1] p [of url2] g [of url1] g [of url2] a
    request_urls_post_order [of w self r i payload] request_urls_get_strategies [of w self]
  show ?thesis
    by (simp only: simp_thms)
qed


section \<open>Floating-point rounding\<close>

lemma bit_length_0: "bit_length 0 = 0"
  by (subst bit_length.simps) simp

lemma bit_length_pos: "0 < n \<Longrightarrow> bit_length n = Suc (bit_length (n div 2))"
  by (subst bit_length.simps) simp

lemma bit_length_upper: "n < 2 ^ bit_length n"
proof (induction n rule: bit_length.induct)
  case (1 n)
  show ?case
  proof (cases "n = 0")
    case True
    then show ?thesis by (simp add: bit_length_0)
  next
    case False
    with 1 have "n div 2 < 2 ^ bit_length (n div 2)" by simp
    then have "n < 2 * 2 ^ bit_length (n div 2)" by linarith
    with False show ?thesis by (simp add: bit_length_pos)
  qed
qed

lemma bit_length_lower: "0 < n \<Longrightarrow> 2 ^ (bit_length n - 1) \<le> n"
proof (induction n rule: bit_length.induct)
  case (1 n)
  show ?case
  proof (cases "n div 2 = 0")
    case True
    with "1.prems" have "n = 1" by linarith
    then show ?thesis by (simp add: bit_length_pos bit_length_0)
  next
    case False
    with 1 have "2 ^ (bit_length (n div 2) - 1) \<le> n div 2" by simp
    moreover from False have "0 < bit_length (n div 2)"
      by (simp add: bit_length_pos)
    ultimately have "2 ^ bit_length (n div 2) \<le> 2 * (n div 2)"
      by (cases "bit_length (n div 2)") simp_all
    then have "2 ^ bit_length (n div 2) \<le> n" by linarith
    with "1.prems" show ?thesis by (simp add: bit_length_pos)
  qed
qed

lemma bit_length_eq:
  assumes "2 ^ k \<le> n" and "n < 2 ^ Suc k"
  shows "bit_length n = Suc k"
proof -
  from assms(1) have pos: "0 < n"
    by (metis not_gr_zero not_le zero_less_numeral zero_less_power)
  have "(2::nat) ^ k < 2 ^ bit_length n"
    using assms(1) bit_length_upper [of n] by linarith
  then have a: "k < bit_length n" by simp
  have "(2::nat) ^ (bit_length n - 1) < 2 ^ Suc k"
    using assms(2) bit_length_lower [OF pos] by linarith
  from power_less_imp_less_exp [OF _ this] have "bit_length n - 1 < Suc k" by simp
  with a show ?thesis by linarith
qed

lemma bit_length_mono: "m \<le> n \<Longrightarrow> bit_length m \<le> bit_length n"
proof (cases "m = 0")
  case True
  then show ?thesis by (simp add: bit_length_0)
next
  case False
  assume le: "m \<le> n"
  have "(2::nat) ^ (bit_length m - 1) < 2 ^ bit_length n"
    using bit_length_lower [of m] bit_length_upper [of n] False le by linarith
  then have "bit_length m - 1 < bit_length n" by simp
  then show ?thesis by linarith
qed

lemma round_half_even_of_int: "round_half_even (of_int i) = i"
  by (simp add: round_half_even_def)

lemma round_half_even_bounds:
  shows "\<lfloor>y\<rfloor> \<le> round_half_even y" and "round_half_even y \<le> \<lfloor>y\<rfloor> + 1"
  by (simp_all add: round_half_even_def Let_def)

lemma round_half_even_mono:
  assumes "x \<le> y"
  shows "round_half_even x \<le> round_half_even y"
proof (cases "\<lfloor>x\<rfloor> = \<lfloor>y\<rfloor>")
  case True
  with assms have "x - of_int \<lfloor>x\<rfloor> \<le> y - of_int \<lfloor>y\<rfloor>" by simp
  with True show ?thesis
    by (auto simp: round_half_even_def Let_def)
next
  case False
  with assms have "\<lfloor>x\<rfloor> < \<lfloor>y\<rfloor>"
    by (meson floor_mono le_less)
  then have "round_half_even x \<le> \<lfloor>y\<rfloor>"
    using round_half_even_bounds(2) [of x] by linarith
  then show ?thesis
    using round_half_even_bounds(1) [of y] by linarith
qed

lemma scaled_upper:
  fixes y :: rat
  assumes "0 \<le> y"
  shows "y < 2 ^ bit_length (nat \<lfloor>y\<rfloor>)"
proof -
  have "int (nat \<lfloor>y\<rfloor>) < int (2 ^ bit_length (nat \<lfloor>y\<rfloor>))"
    using bit_length_upper [of "nat \<lfloor>y\<rfloor>"] by (simp only: of_nat_less_iff)
  moreover have "int (nat \<lfloor>y\<rfloor>) = \<lfloor>y\<rfloor>"
    using assms by simp
  ultimately have "\<lfloor>y\<rfloor> < 2 ^ bit_length (nat \<lfloor>y\<rfloor>)"
    by simp
  then have "y < of_int (2 ^ bit_length (nat \<lfloor>y\<rfloor>))"
    by (simp only: floor_less_iff)
  then show ?thesis by simp
qed

lemma scaled_lower:
  fixes y :: rat
  assumes "0 \<le> y" and "0 < bit_length (nat \<lfloor>y\<rfloor>)"
  shows "2 ^ (bit_length (nat \<lfloor>y\<rfloor>) - 1) \<le> y"
proof -
  from assms(2) have "0 < nat \<lfloor>y\<rfloor>"
    by (cases "nat \<lfloor>y\<rfloor> = 0") (simp_all add: bit_length_0)
  then have "2 ^ (bit_length (nat \<lfloor>y\<rfloor>) - 1) \<le> nat \<lfloor>y\<rfloor>"
    by (rule bit_length_lower)
  then have "int (2 ^ (bit_length (nat \<lfloor>y\<rfloor>) - 1)) \<le> int (nat \<lfloor>y\<rfloor>)"
    by (simp only: of_nat_le_iff)
  moreover have "int (nat \<lfloor>y\<rfloor>) = \<lfloor>y\<rfloor>"
    using assms(1) by simp
  ultimately have "2 ^ (bit_length (nat \<lfloor>y\<rfloor>) - 1) \<le> \<lfloor>y\<rfloor>"
    by simp
  then have "of_int (2 ^ (bit_length (nat \<lfloor>y\<rfloor>) - 1)) \<le> y"
    by (simp only: le_floor_iff)
  then show ?thesis by simp
qed

lemma core_le:
  fixes y :: rat
  assumes "0 \<le> y" and "s = bit_length (nat \<lfloor>y\<rfloor>) - 53"
  shows "of_int (round_half_even (y / 2 ^ s)) * 2 ^ s \<le> (2 ^ (s + 53) :: rat)"
proof -
  have "bit_length (nat \<lfloor>y\<rfloor>) \<le> s + 53"
    using assms(2) by simp
  then have "(2::rat) ^ bit_length (nat \<lfloor>y\<rfloor>) \<le> 2 ^ (s + 53)"
    by (simp only: power_increasing_iff [of 2] one_less_numeral_iff semiring_norm)
  with scaled_upper [OF assms(1)] have "y < 2 ^ (s + 53)"
    by linarith
  then have "y / 2 ^ s < 2 ^ 53"
    by (simp add: divide_less_eq power_add mult.commute)
  then have "\<lfloor>y / 2 ^ s\<rfloor> < 2 ^ 53"
    by (simp add: floor_less_iff)
  then have "round_half_even (y / 2 ^ s) \<le> 2 ^ 53"
    using round_half_even_bounds(2) [of "y / 2 ^ s"] by linarith
  then have "(of_int (round_half_even (y / 2 ^ s)) :: rat) \<le> of_int (2 ^ 53)"
    by (simp only: of_int_le_iff)
  then have "(of_int (round_half_even (y / 2 ^ s)) :: rat) * 2 ^ s \<le> 2 ^ 53 * 2 ^ s"
    by (simp add: mult_right_mono)
  then show ?thesis
    by (simp add: power_add mult.commute)
qed

lemma core_ge:
  fixes y :: rat
  assumes "0 \<le> y" and "s = bit_length (nat \<lfloor>y\<rfloor>) - 53" and "0 < s"
  shows "(2 ^ (s + 52) :: rat) \<le> of_int (round_half_even (y / 2 ^ s)) * 2 ^ s"
proof -
  from assms(2,3) have k: "bit_length (nat \<lfloor>y\<rfloor>) - 1 = s + 52"
    by linarith
  from assms(2,3) have "0 < bit_length (nat \<lfloor>y\<rfloor>)"
    by linarith
  from scaled_lower [OF assms(1) this] have "2 ^ (s + 52) \<le> y"
    by (simp only: k)
  then have "2 ^ 52 \<le> y / 2 ^ s"
    by (simp add: le_divide_eq power_add mult.commute)
  then have "of_int (2 ^ 52) \<le> y / 2 ^ s"
    by simp
  then have "2 ^ 52 \<le> \<lfloor>y / 2 ^ s\<rfloor>"
    by (simp only: le_floor_iff)
  then have "2 ^ 52 \<le> round_half_even (y / 2 ^ s)"
    using round_half_even_bounds(1) [of "y / 2 ^ s"] by linarith
  then have "(of_int (2 ^ 52) :: rat) \<le> of_int (round_half_even (y / 2 ^ s))"
    by (simp only: of_int_le_iff)
  then have "(2 ^ 52 :: rat) * 2 ^ s \<le> of_int (round_half_even (y / 2 ^ s)) * 2 ^ s"
    by (simp add: mult_right_mono)
  then show ?thesis
    by (simp add: power_add mult.commute)
qed

lemma core_mono:
  fixes y y' :: rat
  assumes "0 \<le> y" and "y \<le> y'"
    and "s = bit_length (nat \<lfloor>y\<rfloor>) - 53" and "s' = bit_length (nat \<lfloor>y'\<rfloor>) - 53"
  shows "of_int (round_half_even (y / 2 ^ s)) * 2 ^ s
           \<le> (of_int (round_half_even (y' / 2 ^ s')) * 2 ^ s' :: rat)"
proof -
  have "nat \<lfloor>y\<rfloor> \<le> nat \<lfloor>y'\<rfloor>"
    using assms(2) by (simp add: floor_mono nat_mono)
  then have "bit_length (nat \<lfloor>y\<rfloor>) \<le> bit_length (nat \<lfloor>y'\<rfloor>)"
    by (rule bit_length_mono)
  then have le: "s \<le> s'"
    unfolding assms(3,4) by (rule diff_le_mono)
  show ?thesis
  proof (cases "s = s'")
    case True
    have "y / 2 ^ s \<le> y' / 2 ^ s"
      using assms(2) by (simp add: divide_right_mono)
    then have "round_half_even (y / 2 ^ s) \<le> round_half_even (y' / 2 ^ s)"
      by (rule round_half_even_mono)
    then have "(of_int (round_half_even (y / 2 ^ s)) :: rat) \<le> of_int (round_half_even (y' / 2 ^ s))"
      by (simp only: of_int_le_iff)
    then show ?thesis
      unfolding True [symmetric] by (simp add: mult_right_mono)
  next
    case False
    with le have lt: "s + 53 \<le> s' + 52" and pos: "0 < s'"
      by simp_all
    have y': "0 \<le> y'"
      using assms(1,2) by simp
    have "of_int (round_half_even (y / 2 ^ s)) * 2 ^ s \<le> (2 ^ (s + 53) :: rat)"
      using assms(1,3) by (rule core_le)
    also have "(2 ^ (s + 53) :: rat) \<le> 2 ^ (s' + 52)"
      using lt by (simp only: power_increasing_iff [of 2] one_less_numeral_iff semiring_norm)
    also have "(2 ^ (s' + 52) :: rat) \<le> of_int (round_half_even (y' / 2 ^ s')) * 2 ^ s'"
      using y' assms(4) pos by (rule core_ge)
    finally show ?thesis .
  qed
qed

lemma round_magnitude_mono:
  assumes "0 \<le> x" and "x \<le> x'"
  shows "round_magnitude x \<le> round_magnitude x'"
proof -
  have a: "0 \<le> x * 2 ^ 1074"
    using assms(1) by simp
  have b: "x * 2 ^ 1074 \<le> x' * 2 ^ 1074"
    using assms(2) by simp
  from core_mono [OF a b refl refl] show ?thesis
    unfolding round_magnitude_def Let_def by (simp add: divide_right_mono)
qed

lemma round_magnitude_nonneg:
  assumes "0 \<le> x"
  shows "0 \<le> round_magnitude x"
proof -
  have "0 \<le> x * 2 ^ 1074 / 2 ^ (bit_length (nat \<lfloor>x * 2 ^ 1074\<rfloor>) - 53)"
    using assms by simp
  then have "0 \<le> \<lfloor>x * 2 ^ 1074 / 2 ^ (bit_length (nat \<lfloor>x * 2 ^ 1074\<rfloor>) - 53)\<rfloor>"
    by simp
  then have "0 \<le> round_half_even (x * 2 ^ 1074 / 2 ^ (bit_length (nat \<lfloor>x * 2 ^ 1074\<rfloor>) - 53))"
    using round_half_even_bounds(1) order_trans by blast
  then show ?thesis
    unfolding round_magnitude_def Let_def by simp
qed

lemma round_rat_mono:
  assumes "x \<le> y"
  shows "round_rat x \<le> round_rat y"
proof -
  consider (neg) "y < 0" | (mixed) "x < 0" "0 \<le> y" | (pos) "0 \<le> x"
    by linarith
  then show ?thesis
  proof cases
    case neg
    with assms have "round_magnitude (- y) \<le> round_magnitude (- x)"
      by (intro round_magnitude_mono) simp_all
    with neg assms show ?thesis by (simp add: round_rat_def)
  next
    case mixed
    have "0 \<le> round_magnitude (- x)" "0 \<le> round_magnitude y"
      using mixed by (simp_all add: round_magnitude_nonneg)
    with mixed show ?thesis by (simp add: round_rat_def)
  next
    case pos
    with assms have "round_magnitude x \<le> round_magnitude y"
      by (intro round_magnitude_mono)
    with pos assms show ?thesis by (simp add: round_rat_def)
  qed
qed

lemma double_round_between:
  assumes "x \<le> y" and "y \<le> z"
    and "double_round x = Finite fx" and "double_round z = Finite fz"
  shows "\<exists>fy. double_round y = Finite fy \<and> fx \<le> fy \<and> fy \<le> fz"
proof -
  from assms(3) have x: "round_rat x = fx" "\<bar>round_rat x\<bar> < 2 ^ 1024"
    by (auto simp: double_round_def Let_def split: if_splits)
  from assms(4) have z: "round_rat z = fz" "\<bar>round_rat z\<bar> < 2 ^ 1024"
    by (auto simp: double_round_def Let_def split: if_splits)
  have "round_rat x \<le> round_rat y" "round_rat y \<le> round_rat z"
    using assms(1,2) by (simp_all add: round_rat_mono)
  with x z have "\<bar>round_rat y\<bar> < 2 ^ 1024" "fx \<le> round_rat y" "round_rat y \<le> fz"
    by linarith+
  then show ?thesis
    by (simp add: double_round_def Let_def)
qed

lemma bit_length_double: "0 < n \<Longrightarrow> bit_length (2 * n) = Suc (bit_length n)"
  by (subst bit_length.simps) simp

lemma bit_length_shift: "0 < m \<Longrightarrow> bit_length (m * 2 ^ j) = bit_length m + j"
proof (induction j)
  case 0
  show ?case by simp
next
  case (Suc j)
  have "m * 2 ^ Suc j = 2 * (m * 2 ^ j)" by simp
  moreover have "0 < m * 2 ^ j" using Suc.prems by simp
  ultimately show ?case
    using Suc by (simp only: bit_length_double)
qed

lemma bit_length_le_53:
  assumes "0 < m" and "m < 2 ^ 53"
  shows "0 < bit_length m" and "bit_length m \<le> 53"
proof -
  show "0 < bit_length m"
    using assms(1) by (simp add: bit_length_pos)
  have "(2::nat) ^ (bit_length m - 1) < 2 ^ 53"
    using bit_length_lower [OF assms(1)] assms(2) by linarith
  from power_less_imp_less_exp [OF _ this] show "bit_length m \<le> 53"
    by simp
qed

lemma round_magnitude_exact:
  assumes "0 < m" and "m < 2 ^ 53"
  shows "round_magnitude (of_nat (m * 2 ^ j)) = of_nat (m * 2 ^ j)"
proof -
  define t where "t = 53 - bit_length m"
  define s where "s = bit_length m + j + 1021"
  have ts: "t + s = j + 1074"
    using bit_length_le_53 [OF assms] by (simp add: t_def s_def)
  have y: "(of_nat (m * 2 ^ j) :: rat) * 2 ^ 1074 = of_nat (m * 2 ^ (j + 1074))"
    by (simp add: power_add)
  have fl: "nat \<lfloor>(of_nat (m * 2 ^ (j + 1074)) :: rat)\<rfloor> = m * 2 ^ (j + 1074)"
    by (simp only: floor_of_nat nat_int)
  have bl: "bit_length (m * 2 ^ (j + 1074)) - 53 = s"
    using bit_length_le_53 [OF assms] by (simp add: bit_length_shift [OF assms(1)] s_def)
  have split: "(of_nat (m * 2 ^ (j + 1074)) :: rat) = of_nat (m * 2 ^ t) * 2 ^ s"
    by (simp add: ts [symmetric] power_add)
  have q: "(of_nat (m * 2 ^ (j + 1074)) :: rat) / 2 ^ s = of_int (int (m * 2 ^ t))"
    unfolding split by simp
  have "round_magnitude (of_nat (m * 2 ^ j)) = of_int (int (m * 2 ^ t)) * 2 ^ s / 2 ^ 1074"
    unfolding round_magnitude_def Let_def y fl bl q round_half_even_of_int ..
  also have "\<dots> = of_nat (m * 2 ^ (j + 1074)) / 2 ^ 1074"
    unfolding split by simp
  also have "\<dots> = of_nat (m * 2 ^ j)"
    by (simp add: power_add)
  finally show ?thesis .
qed

lemma round_magnitude_0: "round_magnitude 0 = 0"
  by (simp add: round_magnitude_def bit_length_0 round_half_even_def)

lemma round_rat_exact:
  assumes "\<bar>n\<bar> = int (m * 2 ^ j)" and "m < 2 ^ 53"
  shows "round_rat (of_int n) = of_int n"
proof (cases "m = 0")
  case True
  with assms(1) have "n = 0" by simp
  then show ?thesis by (simp add: round_rat_def round_magnitude_0)
next
  case False
  then have m: "0 < m" by simp
  have "(of_int \<bar>n\<bar> :: rat) = of_nat (m * 2 ^ j)"
    unfolding assms(1) by (simp only: of_int_of_nat_eq)
  with round_magnitude_exact [OF m assms(2), of j]
  have e: "round_magnitude (of_int \<bar>n\<bar>) = of_int \<bar>n\<bar>"
    by (simp only:)
  show ?thesis
  proof (cases "n < 0")
    case True
    then have a: "\<bar>n\<bar> = - n" by simp
    from e have "round_magnitude (of_int (- n)) = of_int (- n)"
      by (simp only: a)
    then have "round_magnitude (- of_int n) = - of_int n"
      by (simp only: of_int_minus)
    moreover have "(of_int n :: rat) < 0" using True by simp
    ultimately show ?thesis
      by (simp only: round_rat_def if_True minus_minus)
  next
    case False
    then have a: "\<bar>n\<bar> = n" by simp
    from e have "round_magnitude (of_int n) = of_int n"
      by (simp only: a)
    moreover have "\<not> (of_int n :: rat) < 0" using False by simp
    ultimately show ?thesis
      by (simp only: round_rat_def if_False)
  qed
qed

lemma py_float_of_int_exact:
  assumes "\<bar>n\<bar> = int (m * 2 ^ j)" and "m < 2 ^ 53" and "\<bar>n\<bar> < 2 ^ 1024"
  shows "py_float_of_int n = Inr (of_int n)" and "double_round (of_int n) = Finite (of_int n)"
proof -
  have "\<bar>of_int n :: rat\<bar> = of_int \<bar>n\<bar>" by simp
  also have "\<dots> < of_int (2 ^ 1024)"
    using assms(3) by (simp only: of_int_less_iff)
  finally have "\<bar>of_int n :: rat\<bar> < 2 ^ 1024" by simp
  then show "double_round (of_int n) = Finite (of_int n)"
    by (simp add: double_round_def round_rat_exact [OF assms(1,2)])
  then show "py_float_of_int n = Inr (of_int n)"
    by (simp add: py_float_of_int_def)
qed

lemma py_float_of_int_small:
  assumes "\<bar>n\<bar> < 2 ^ 53"
  shows "py_float_of_int n = Inr (of_int n)" and "double_round (of_int n) = Finite (of_int n)"
proof -
  have a: "\<bar>n\<bar> = int (nat \<bar>n\<bar> * 2 ^ 0)" by simp
  have b: "nat \<bar>n\<bar> < 2 ^ 53" using assms by (simp add: nat_less_iff)
  have "(2::int) ^ 53 < 2 ^ 1024" by (rule power_strict_increasing) simp_all
  with assms have c: "\<bar>n\<bar> < 2 ^ 1024" by (rule less_trans)
  from py_float_of_int_exact [OF a b c]
  show "py_float_of_int n = Inr (of_int n)" and "double_round (of_int n) = Finite (of_int n)"
    by simp_all
qed

lemma double_round_overflow:
  assumes "2 ^ 1024 \<le> x"
  shows "double_round x = Infinite True"
proof -
  have "\<bar>(2 ^ 1024 :: int)\<bar> = int (1 * 2 ^ 1024)" by simp
  from round_rat_exact [OF this] have "round_rat (of_int (2 ^ 1024)) = of_int (2 ^ 1024)"
    by simp
  then have "round_rat (2 ^ 1024) = 2 ^ 1024" by simp
  with round_rat_mono [OF assms] have "2 ^ 1024 \<le> round_rat x" by simp
  moreover have "(0::rat) < 2 ^ 1024" by (rule zero_less_power) simp
  then have "0 < x" using assms by (rule less_le_trans)
  ultimately show ?thesis
    by (simp add: double_round_def Let_def)
qed

lemma py_float_of_int_overflow:
  assumes "2 ^ 1024 \<le> n"
  shows "py_float_of_int n = Inl OverflowError"
proof -
  have "(of_int (2 ^ 1024) :: rat) \<le> of_int n"
    using assms by (simp only: of_int_le_iff)
  then have "double_round (of_int n) = Infinite True"
    by (intro double_round_overflow) simp
  then show ?thesis by (simp add: py_float_of_int_def)
qed

lemma py_float_of_int_Inr:
  "py_float_of_int n = Inr r \<longleftrightarrow> double_round (of_int n) = Finite r"
  by (simp add: py_float_of_int_def split: pyfloat.splits)

lemma double_round_0: "double_round 0 = Finite 0"
  using py_float_of_int_small(2) [of 0] by simp

lemma py_uniform_bounds:
  assumes ra: "py_float_of_int a = Inr (of_int a)"
    and rb: "py_float_of_int b = Inr (of_int b)"
    and rd: "py_float_of_int (b - a) = Inr (of_int (b - a))"
    and u0: "0 \<le> u" and u1: "u < 1"
  shows "\<exists>v. py_uniform a b u = Inr (Finite v)
           \<and> (a \<le> b \<longrightarrow> of_int a \<le> v \<and> v \<le> of_int b)
           \<and> (b \<le> a \<longrightarrow> of_int b \<le> v \<and> v \<le> of_int a)"
proof -
  let ?d = "of_int (b - a) :: rat"
  have da: "double_round (of_int a) = Finite (of_int a)"
    and db: "double_round (of_int b) = Finite (of_int b)"
    and dd: "double_round ?d = Finite ?d"
    using ra rb rd by (simp_all only: py_float_of_int_Inr)
  have ab: "of_int a + ?d = (of_int b :: rat)"
    by simp
  have up: "py_uniform a b u = Inr (float_add (of_int a) (double_round (?d * u)))"
    by (simp only: py_uniform_def ra rd float_mul_def Let_def sum.case)
  show ?thesis
  proof (cases "a \<le> b")
    case True
    then have d0: "0 \<le> ?d" by simp
    have "0 \<le> ?d * u" using d0 u0 by simp
    moreover have "?d * u \<le> ?d" using d0 u1 by (simp add: mult_left_le)
    ultimately obtain p where p: "double_round (?d * u) = Finite p" "0 \<le> p" "p \<le> ?d"
      using double_round_between [OF _ _ double_round_0 dd] by blast
    have "of_int a \<le> of_int a + p" using p(2) by simp
    moreover have "of_int a + p \<le> of_int b" using p(3) ab by linarith
    ultimately obtain v where v: "double_round (of_int a + p) = Finite v"
      "of_int a \<le> v" "v \<le> of_int b"
      using double_round_between [OF _ _ da db] by blast
    have "py_uniform a b u = Inr (Finite v)"
      by (simp only: up p(1) float_add.simps v(1))
    moreover have "b \<le> a \<longrightarrow> of_int b \<le> v \<and> v \<le> of_int a"
      using True v(2,3) by auto
    ultimately show ?thesis using v(2,3) by blast
  next
    case False
    then have d0: "?d \<le> 0" by simp
    have "?d * u \<le> 0" using d0 u0 by (simp add: mult_nonpos_nonneg)
    moreover have "?d \<le> ?d * u" using mult_left_mono_neg [of u 1 ?d] d0 u1 by simp
    ultimately obtain p where p: "double_round (?d * u) = Finite p" "?d \<le> p" "p \<le> 0"
      using double_round_between [OF _ _ dd double_round_0] by blast
    have "of_int a + p \<le> of_int a" using p(3) by simp
    moreover have "of_int b \<le> of_int a + p" using p(2) ab by linarith
    ultimately obtain v where v: "double_round (of_int a + p) = Finite v"
      "of_int b \<le> v" "v \<le> of_int a"
      using double_round_between [OF _ _ db da] by blast
    have "py_uniform a b u = Inr (Finite v)"
      by (simp only: up p(1) float_add.simps v(1))
    with False v(2,3) show ?thesis by auto
  qed
qed

lemma py_uniform_overflow:
  assumes "2 ^ 1024 \<le> a"
  shows "py_uniform a a u = Inl OverflowError"
proof -
  have "py_float_of_int (a - a) = Inr (of_int (a - a))"
    using py_float_of_int_small(1) [of 0] by simp
  then show ?thesis
    by (simp add: py_uniform_def py_float_of_int_overflow [OF assms])
qed

lemma round_magnitude_2_53_1: "round_magnitude 9007199254740993 = 9007199254740992"
proof -
  define N :: nat where "N = 9007199254740993"
  have bN: "bit_length N = 54"
    using bit_length_eq [of 53 N] by (simp add: N_def)
  have y: "(9007199254740993 :: rat) * 2 ^ 1074 = of_nat (N * 2 ^ 1074)"
    by (simp add: N_def)
  have fl: "nat \<lfloor>(of_nat (N * 2 ^ 1074) :: rat)\<rfloor> = N * 2 ^ 1074"
    by (simp only: floor_of_nat nat_int)
  have "bit_length (N * 2 ^ 1074) = bit_length N + 1074"
    by (rule bit_length_shift) (simp add: N_def)
  then have bl: "bit_length (N * 2 ^ 1074) - 53 = Suc 1074"
    unfolding bN by (simp only:)
  have q: "(of_nat (N * 2 ^ 1074) :: rat) / 2 ^ Suc 1074 = 9007199254740993 / 2"
    by (simp add: N_def)
  have f: "\<lfloor>(9007199254740993 :: rat) / 2\<rfloor> = 4503599627370496"
    by (rule floor_unique) simp_all
  have r: "round_half_even (9007199254740993 / 2) = 4503599627370496"
    by (simp add: round_half_even_def Let_def f)
  have "round_magnitude 9007199254740993 = of_int 4503599627370496 * 2 ^ Suc 1074 / 2 ^ 1074"
    unfolding round_magnitude_def Let_def y fl bl q r ..
  also have "\<dots> = 9007199254740992"
    by simp
  finally show ?thesis .
qed

lemma py_float_of_int_2_53_1: "py_float_of_int 9007199254740993 = Inr 9007199254740992"
proof -
  have "(9007199254740992 :: rat) < 2 ^ 1024"
    by (rule less_trans [of _ "2 ^ 54"]) (simp, rule power_strict_increasing, simp_all)
  then show ?thesis
    by (simp add: py_float_of_int_def double_round_def round_rat_def round_magnitude_2_53_1)
qed


lemma py_uniform_same:
  assumes "py_float_of_int a = Inr (of_int a)"
  shows "py_uniform a a u = Inr (Finite (of_int a))"
proof -
  have d: "py_float_of_int 0 = Inr 0"
    using py_float_of_int_small(1) [of 0] by simp
  have "double_round (of_int a) = Finite (of_int a)"
    using assms by (simp add: py_float_of_int_Inr)
  then show ?thesis
    by (simp add: py_uniform_def d assms float_mul_def double_round_0 Let_def)
qed

lemma small_ints_exact:
  shows "py_float_of_int 1 = Inr 1" and "py_float_of_int 2 = Inr 2"
    and "py_float_of_int 5 = Inr 5" and "py_float_of_int (- 4) = Inr (- 4)"
    and "double_round 1 = Finite 1" and "double_round 2 = Finite 2"
    and "double_round 3 = Finite 3" and "double_round (- 2) = Finite (- 2)"
  using py_float_of_int_small [of 1] py_float_of_int_small [of 2] py_float_of_int_small [of 3]
    py_float_of_int_small [of 5] py_float_of_int_small [of "- 4"] py_float_of_int_small [of "- 2"]
  by simp_all

lemma py_uniform_examples:
  shows "py_uniform 1 1 u = Inr (Finite 1)"
    and "py_uniform 1 3 (1 / 2) = Inr (Finite 2)"
    and "py_uniform 5 1 (1 / 2) = Inr (Finite 3)"
    and "py_uniform 9007199254740993 9007199254740993 u = Inr (Finite 9007199254740992)"
    and "py_uniform (10 ^ 400) (10 ^ 400) u = Inl OverflowError"
proof -
  show "py_uniform 1 1 u = Inr (Finite 1)"
    using py_uniform_same [of 1 u] by (simp add: small_ints_exact)
  show "py_uniform 1 3 (1 / 2) = Inr (Finite 2)"
    by (simp add: py_uniform_def float_mul_def small_ints_exact)
  show "py_uniform 5 1 (1 / 2) = Inr (Finite 3)"
    by (simp add: py_uniform_def float_mul_def small_ints_exact)
  have "\<bar>9007199254740992 :: int\<bar> = int (1 * 2 ^ 53)"
    by simp
  moreover have "\<bar>9007199254740992 :: int\<bar> < 2 ^ 1024"
    by (rule less_trans [of _ "2 ^ 54"]) (simp, rule power_strict_increasing, simp_all)
  ultimately have e: "double_round 9007199254740992 = Finite 9007199254740992"
    using py_float_of_int_exact(2) [of 9007199254740992 1 53] by simp
  have d: "py_float_of_int (9007199254740993 - 9007199254740993) = Inr 0"
    using py_float_of_int_small(1) [of 0] by simp
  show "py_uniform 9007199254740993 9007199254740993 u = Inr (Finite 9007199254740992)"
    unfolding py_uniform_def d by (simp add: py_float_of_int_2_53_1 float_mul_def double_round_0 e)
  have "(2 :: int) ^ 1024 \<le> 10 ^ 400"
    by simp
  then show "py_uniform (10 ^ 400) (10 ^ 400) u = Inl OverflowError"
    by (rule py_uniform_overflow)
qed

section \<open>Rounds of the scheduler\<close>

lemma gather_Nil: "gather [] = ([], Inr ())"
  by (simp add: gather_def)

lemma manager_loop_no_payloads:
  assumes "order_payloads self = []"
    and "\<forall>k. \<exists>v. py_uniform (order_submission_lower_boundary self)
                   (order_submission_higher_boundary self) (random_draw w k) = Inr (Finite v)"
  shows "manager_loop w self r fuel =
           (map (\<lambda>k. Sleep (projr (py_uniform (order_submission_lower_boundary self)
                                       (order_submission_higher_boundary self) (random_draw w k))))
                [r ..< r + fuel],
            Looping)"
proof (induction fuel arbitrary: r)
  case 0
  show ?case by simp
next
  case (Suc fuel)
  from assms(2) obtain v
    where v: "py_uniform (order_submission_lower_boundary self)
                (order_submission_higher_boundary self) (random_draw w r) = Inr (Finite v)"
    by blast
  have "[r ..< r + Suc fuel] = r # [Suc r ..< Suc r + fuel]"
    by (simp add: upt_rec)
  then show ?case
    using assms(1) Suc.IH [of "Suc r"] by (simp add: gather_Nil v)
qed

lemma manager_loop_no_payloads_raises:
  assumes "order_payloads self = []"
    and "py_uniform (order_submission_lower_boundary self)
           (order_submission_higher_boundary self) (random_draw w r) = Inl e"
  shows "manager_loop w self r (Suc fuel) = ([], Raised e)"
  using assms by (simp add: gather_Nil)

lemma b64decode_YWJj: "b64decode ''YWJj'' = Inr ''abc''"
  by (simp add: b64decode_def b64_index_def char_of_eq_iff)

lemma example_listing:
  assumes "paradigm_taker_secret_key self = ''YWJj''"
  shows "ingest_available_strategies example_world self =
           (fst (get_strategies example_world self), Inr [])"
proof -
  have "snd (get_strategies example_world self) = Inr (PyDict [(''results'', PyList [])])"
    by (simp add: get_strategies_def create_rest_headers_def sign_request_def assms b64decode_YWJj
        example_world_def Let_def)
  then have g: "get_strategies example_world self =
             (fst (get_strategies example_world self), Inr (PyDict [(''results'', PyList [])]))"
    by (simp add: prod_eq_iff)
  show ?thesis
    by (subst ingest_available_strategies_def, subst g) simp
qed

text \<open>
  Claim C8, as stated, at an empty listing and the two boundaries \<open>10 ^ 400\<close>: in the first
  round \<^verbatim>\<open>uniform\<close> raises \<^verbatim>\<open>OverflowError\<close>, the run ends with it and never sleeps.
\<close>

theorem empty_listing_overflowing_boundaries:
  "manager example_world 3 example_taker_huge =
     (fst (get_strategies example_world example_taker_huge), Raised OverflowError)"
proof -
  have i: "ingest_available_strategies example_world example_taker_huge =
             (fst (get_strategies example_world example_taker_huge), Inr [])"
    by (rule example_listing) (simp add: example_taker_huge_def example_taker_def)
  let ?self2 = "example_taker_huge\<lparr>availabile_strateies := [],
        order_payloads := construct_order_payloads (example_taker_huge\<lparr>availabile_strateies := []\<rparr>)\<rparr>"
  have "py_uniform (order_submission_lower_boundary ?self2)
          (order_submission_higher_boundary ?self2) (random_draw example_world 0) = Inl OverflowError"
    using py_uniform_examples(5) [of "random_draw example_world 0"]
    by (simp add: example_taker_huge_def example_taker_def)
  then have m: "manager_loop example_world ?self2 0 (Suc 2) = ([], Raised OverflowError)"
    by (rule manager_loop_no_payloads_raises [rotated]) (simp add: construct_order_payloads_def)
  have s: "Suc 2 = (3 :: nat)"
    by simp
  from m have "manager_loop example_world ?self2 0 3 = ([], Raised OverflowError)"
    unfolding s .
  then show ?thesis
    by (simp add: manager_def i Let_def)
qed

text \<open>
  Claim C8, amended. With no strategy, \<^verbatim>\<open>construct_order_payloads\<close> returns the empty
  list. When the listing yields the empty list and every drawn sleep duration is a
  finite float, a run observed for any number \<open>fuel\<close> of rounds consists, after the
  events of the listing, of exactly one sleep per round and no submission, and is still
  looping: it has neither ended nor raised. Every drawn duration is a finite float
  whenever the two boundaries and their difference are exactly representable as floats
  and the draws lie in \<open>[0, 1)\<close>.
\<close>

theorem empty_listing_rounds_only_sleep:
  "(availabile_strateies self = [] \<longrightarrow> construct_order_payloads self = [])
   \<and> (ingest_available_strategies w self = (evs, Inr []) \<and>
        (\<forall>k. \<exists>v. py_uniform (order_submission_lower_boundary self)
                  (order_submission_higher_boundary self) (random_draw w k) = Inr (Finite v)) \<longrightarrow>
        manager w fuel self =
          (evs @ map (\<lambda>k. Sleep (projr (py_uniform (order_submission_lower_boundary self)
                                          (order_submission_higher_boundary self) (random_draw w k))))
                     [0 ..< fuel],
           Looping))
   \<and> (py_float_of_int (order_submission_lower_boundary self)
          = Inr (of_int (order_submission_lower_boundary self)) \<and>
        py_float_of_int (order_submission_higher_boundary self)
          = Inr (of_int (order_submission_higher_boundary self)) \<and>
        py_float_of_int (order_submission_higher_boundary self - order_submission_lower_boundary self)
          = Inr (of_int (order_submission_higher_boundary self - order_submission_lower_boundary self)) \<and>
        (\<forall>k. 0 \<le> random_draw w k \<and> random_draw w k < 1) \<longrightarrow>
        (\<forall>k. \<exists>v. py_uniform (order_submission_lower_boundary self)
                  (order_submission_higher_boundary self) (random_draw w k) = Inr (Finite v)))"
proof (intro conjI impI)
  assume "availabile_strateies self = []"
  then show "construct_order_payloads self = []"
    by (simp add: construct_order_payloads_def)
next
  assume a: "ingest_available_strategies w self = (evs, Inr []) \<and>
        (\<forall>k. \<exists>v. py_uniform (order_submission_lower_boundary self)
                  (order_submission_higher_boundary self) (random_draw w k) = Inr (Finite v))"
  let ?self2 = "self\<lparr>availabile_strateies := [],
                      order_payloads := construct_order_payloads (self\<lparr>availabile_strateies := []\<rparr>)\<rparr>"
  have e: "order_payloads ?self2 = []"
    by (simp add: construct_order_payloads_def)
  have f: "\<forall>k. \<exists>v. py_uniform (order_submission_lower_boundary ?self2)
                  (order_submission_higher_boundary ?self2) (random_draw w k) = Inr (Finite v)"
    using a by simp
  from manager_loop_no_payloads [OF e f, of 0 fuel] a
  show "manager w fuel self =
          (evs @ map (\<lambda>k. Sleep (projr (py_uniform (order_submission_lower_boundary self)
                                          (order_submission_higher_boundary self) (random_draw w k))))
                     [0 ..< fuel],
           Looping)"
    by (simp add: manager_def Let_def)
next
  assume r: "py_float_of_int (order_submission_lower_boundary self)
          = Inr (of_int (order_submission_lower_boundary self)) \<and>
        py_float_of_int (order_submission_higher_boundary self)
          = Inr (of_int (order_submission_higher_boundary self)) \<and>
        py_float_of_int (order_submission_higher_boundary self - order_submission_lower_boundary self)
          = Inr (of_int (order_submission_higher_boundary self - order_submission_lower_boundary self)) \<and>
        (\<forall>k. 0 \<le> random_draw w k \<and> random_draw w k < 1)"
  show "\<forall>k. \<exists>v. py_uniform (order_submission_lower_boundary self)
                  (order_submission_higher_boundary self) (random_draw w k) = Inr (Finite v)"
  proof
    fix k
    from r have "0 \<le> random_draw w k" "random_draw w k < 1"
      by simp_all
    from py_uniform_bounds [OF _ _ _ this] r
    show "\<exists>v. py_uniform (order_submission_lower_boundary self)
                  (order_submission_higher_boundary self) (random_draw w k) = Inr (Finite v)"
      by blast
  qed
qed

theorem empty_listing_rounds_only_sleep_witness:
  "manager example_world 3 example_taker =
     (fst (get_strategies example_world example_taker)
        @ [Sleep (Finite 1), Sleep (Finite 1), Sleep (Finite 1)], Looping)"
proof -
  have i: "ingest_available_strategies example_world example_taker =
             (fst (get_strategies example_world example_taker), Inr [])"
    by (rule example_listing) (simp add: example_taker_def)
  have u: "py_uniform (order_submission_lower_boundary example_taker)
             (order_submission_higher_boundary example_taker) (random_draw example_world k)
           = Inr (Finite 1)" for k
    by (simp add: example_taker_def py_uniform_examples(1))
  have "[0 ..< 3] = [0, 1, 2::nat]"
    by (simp add: upt_rec)
  with empty_listing_rounds_only_sleep [of example_taker example_world
      "fst (get_strategies example_world example_taker)" 3] i u
  show ?thesis by simp
qed

section \<open>The sleep between two rounds\<close>

lemma no_sleep_post_order: "Sleep d \<notin> set (fst (post_order w self r i payload))"
  by (simp add: post_order_def post_order_except_def Let_def
      split: sum.splits option.splits http_reply.splits)

lemma no_sleep_gather:
  assumes "\<forall>x \<in> set results. Sleep d \<notin> set (fst x)"
  shows "Sleep d \<notin> set (fst (gather results))"
  using assms by (auto simp: gather_def)

lemma sleep_manager_loop:
  assumes "Sleep d \<in> set (fst (manager_loop w self r fuel))"
  shows "\<exists>k. py_uniform (order_submission_lower_boundary self)
               (order_submission_higher_boundary self) (random_draw w k) = Inr d"
  using assms
proof (induction fuel arbitrary: r)
  case 0
  then show ?case by simp
next
  case (Suc fuel)
  let ?batch = "gather (map (\<lambda>(i, order). post_order w self r i (order_payload order))
                       (enumerate 0 (order_payloads self)))"
  let ?draw = "py_uniform (order_submission_lower_boundary self)
                 (order_submission_higher_boundary self) (random_draw w r)"
  have nb: "Sleep d \<notin> set (fst ?batch)"
    by (rule no_sleep_gather) (auto simp: no_sleep_post_order)
  show ?case
  proof (cases "snd ?batch")
    case (Inl e)
    with Suc.prems nb show ?thesis
      by (simp add: split_beta split: prod.splits sum.splits)
  next
    case batch: (Inr u)
    show ?thesis
    proof (cases ?draw)
      case (Inl e)
      with Suc.prems nb batch show ?thesis
        by (simp add: split_beta split: prod.splits sum.splits)
    next
      case (Inr delay)
      with Suc.prems nb batch
      have "d = delay \<or> Sleep d \<in> set (fst (manager_loop w self (Suc r) fuel))"
        by (auto simp: Let_def split: prod.splits sum.splits if_splits)
      with Suc.IH Inr show ?thesis by blast
    qed
  qed
qed

text \<open>
  Claim C6, as stated, at three pairs of boundaries, each with no payload and the draw
  \<open>1/2\<close>: with \<open>lower = 5\<close> and \<open>upper = 1\<close> the round sleeps for 3 seconds, which is not
  in the (empty) interval from 5 to 1; with \<open>lower = upper = 2 ^ 53 + 1\<close> it sleeps for
  \<open>2 ^ 53\<close> seconds, which is not that constant; with \<open>lower = upper = 10 ^ 400\<close> it raises
  \<^verbatim>\<open>OverflowError\<close> and does not sleep.
\<close>

theorem sleep_duration_lower_above_upper:
  "manager_loop example_world
     (example_taker\<lparr>order_submission_lower_boundary := 5,
                    order_submission_higher_boundary := 1\<rparr>) 0 1 = ([Sleep (Finite 3)], Looping)
   \<and> \<not> (5 \<le> (3 :: rat) \<and> (3 :: rat) \<le> 1)
   \<and> manager_loop example_world
     (example_taker\<lparr>order_submission_lower_boundary := 9007199254740993,
                    order_submission_higher_boundary := 9007199254740993\<rparr>) 0 1
       = ([Sleep (Finite 9007199254740992)], Looping)
   \<and> manager_loop example_world example_taker_huge 0 1 = ([], Raised OverflowError)"
  using py_uniform_examples(5) [of "1 / 2"]
  by (simp add: example_world_def example_taker_def example_taker_huge_def gather_def
      py_uniform_examples(1-4))

text \<open>
  Claim C6, amended. Let the two boundaries and their difference be exactly
  representable as floats (their conversion to float returns them unchanged), and let
  every draw of \<^verbatim>\<open>random()\<close> lie in \<open>[0, 1)\<close>. Then every sleep of the scheduler has a
  finite duration, which lies between \<open>lower\<close> and \<open>upper\<close> when \<open>lower \<le> upper\<close>, between
  \<open>upper\<close> and \<open>lower\<close> when \<open>upper \<le> lower\<close>, and is exactly \<open>lower\<close> when the two
  boundaries are equal.
\<close>

theorem sleep_duration_within_boundaries:
  assumes lower: "lower = order_submission_lower_boundary self"
    and upper: "upper = order_submission_higher_boundary self"
    and rep_lower: "py_float_of_int lower = Inr (of_int lower)"
    and rep_upper: "py_float_of_int upper = Inr (of_int upper)"
    and rep_diff: "py_float_of_int (upper - lower) = Inr (of_int (upper - lower))"
    and draws: "\<forall>k. 0 \<le> random_draw w k \<and> random_draw w k < 1"
    and sleep: "Sleep d \<in> set (fst (manager_loop w self r fuel))"
  shows "\<exists>v. d = Finite v
           \<and> (lower \<le> upper \<longrightarrow> of_int lower \<le> v \<and> v \<le> of_int upper)
           \<and> (upper \<le> lower \<longrightarrow> of_int upper \<le> v \<and> v \<le> of_int lower)
           \<and> (lower = upper \<longrightarrow> v = of_int lower)"
proof -
  from sleep_manager_loop [OF sleep] lower upper
  obtain k where d: "py_uniform lower upper (random_draw w k) = Inr d"
    by auto
  from draws have u: "0 \<le> random_draw w k" "random_draw w k < 1"
    by simp_all
  from py_uniform_bounds [OF rep_lower rep_upper rep_diff u] d
  obtain v where v: "d = Finite v"
    "lower \<le> upper \<longrightarrow> of_int lower \<le> v \<and> v \<le> of_int upper"
    "upper \<le> lower \<longrightarrow> of_int upper \<le> v \<and> v \<le> of_int lower"
    by auto
  then have "lower = upper \<longrightarrow> v = of_int lower"
    by auto
  with v show ?thesis by blast
qed

theorem sleep_duration_within_boundaries_witness:
  "Sleep (Finite 2) \<in> set (fst (manager_loop example_world
                                   (example_taker\<lparr>order_submission_higher_boundary := 3\<rparr>) 0 1))
   \<and> (1 :: rat) \<le> 2 \<and> (2 :: rat) \<le> 3"
proof -
  let ?self = "example_taker\<lparr>order_submission_higher_boundary := 3\<rparr>"
  have s: "Sleep (Finite 2) \<in> set (fst (manager_loop example_world ?self 0 1))"
    by (simp add: example_world_def example_taker_def gather_def py_uniform_examples)
  have "\<exists>v. Finite 2 = Finite v
           \<and> ((1 :: int) \<le> 3 \<longrightarrow> of_int 1 \<le> v \<and> v \<le> of_int 3)
           \<and> ((3 :: int) \<le> 1 \<longrightarrow> of_int 3 \<le> v \<and> v \<le> of_int 1)
           \<and> ((1 :: int) = 3 \<longrightarrow> v = of_int 1)"
    by (rule sleep_duration_within_boundaries [where w = example_world and self = ?self
          and r = 0 and fuel = 1, OF _ _ _ _ _ _ s])
       (simp_all add: example_world_def example_taker_def py_float_of_int_small)
  with s show ?thesis by simp
qed

section \<open>Failures of the listing and of a submission\<close>

lemma create_rest_headers_isl:
  "isl (create_rest_headers self now method path body) = isl (b64decode (paradigm_taker_secret_key self))"
  by (simp add: create_rest_headers_def sign_request_def Let_def split: sum.splits prod.splits)

lemma example_headers:
  "create_rest_headers (example_taker\<lparr>availabile_strateies := ss, order_payloads := ps\<rparr>) now method path body
     = Inr (projr (create_rest_headers (example_taker\<lparr>availabile_strateies := ss, order_payloads := ps\<rparr>)
                     now method path body))"
proof -
  have "\<not> isl (create_rest_headers (example_taker\<lparr>availabile_strateies := ss, order_payloads := ps\<rparr>)
                  now method path body)"
    by (simp add: create_rest_headers_isl example_taker_def b64decode_YWJj)
  then show ?thesis by simp
qed

text \<open>
  Claim C4, on the code. When the listing is answered with a status other than 200,
  \<^verbatim>\<open>get_strategies\<close> logs three error records and returns the response object;
  \<^verbatim>\<open>ingest_available_strategies\<close> subscripts it, which raises \<^verbatim>\<open>TypeError\<close>. So the
  run ends before the first round and without any submission, but the exception that
  surfaces is that \<^verbatim>\<open>TypeError\<close>: it carries neither the status code nor the body.
\<close>

theorem listing_non_200_raises_TypeError:
  assumes headers: "create_rest_headers self (get_clock w) ''GET'' ''/v1/fs/strategies?page_size=100'' []
                      = Inr headers"
    and url: "module_paradigm_http_url w = Some url"
    and reply: "get_reply w = HttpResponse status_code js"
    and status: "status_code \<noteq> 200"
  shows "manager w fuel self =
           ([HttpGet (url @ ''/v1/fs/strategies?page_size=100'') headers,
             LogError ''Unable to [GET] /strategies'' [],
             LogError ''Status Code: {status_code}'' [PyInt status_code],
             LogError ''Response Text: {response}'' [PyClientResponse status_code]],
            Raised TypeError)
       \<and> filter is_submission (fst (manager w fuel self)) = []"
proof -
  have g: "get_strategies w self =
             ([HttpGet (url @ ''/v1/fs/strategies?page_size=100'') headers,
               LogError ''Unable to [GET] /strategies'' [],
               LogError ''Status Code: {status_code}'' [PyInt status_code],
               LogError ''Response Text: {response}'' [PyClientResponse status_code]],
              Inr (PyClientResponse status_code))"
    using status by (simp add: get_strategies_def headers url reply)
  have i: "ingest_available_strategies w self = (fst (get_strategies w self), Inl TypeError)"
    by (simp add: ingest_available_strategies_def g)
  have m: "manager w fuel self = (fst (get_strategies w self), Raised TypeError)"
    by (simp add: manager_def i)
  show ?thesis
    by (simp add: m g)
qed

theorem listing_non_200_raises_TypeError_witness:
  "snd (manager example_world_500 7 example_taker) = Raised TypeError
   \<and> filter is_submission (fst (manager example_world_500 7 example_taker)) = []"
proof -
  have h: "create_rest_headers example_taker (get_clock example_world_500) ''GET''
             ''/v1/fs/strategies?page_size=100'' []
           = Inr (projr (create_rest_headers example_taker (get_clock example_world_500) ''GET''
                           ''/v1/fs/strategies?page_size=100'' []))"
    using example_headers [of "[]" "[]"] by (simp add: example_taker_def)
  have u: "module_paradigm_http_url example_world_500 = Some ''https://api.fs.test.paradigm.co''"
    by (simp add: example_world_500_def example_world_def)
  have r: "get_reply example_world_500 = HttpResponse 500 (Inl JSONDecodeError)"
    by (simp add: example_world_500_def)
  from listing_non_200_raises_TypeError [OF h u r, of 7]
  show ?thesis by simp
qed

lemma gather_raises:
  assumes "x \<in> set results" and "isl (snd x)"
  shows "\<exists>e. snd (gather results) = Inl e"
proof -
  from assms have "filter isl (map snd results) \<noteq> []"
    by (auto simp: filter_empty_conv)
  then obtain y ys where f: "filter isl (map snd results) = y # ys"
    by (cases "filter isl (map snd results)") auto
  then have "y \<in> set (filter isl (map snd results))"
    by simp
  then have "isl y" by simp
  then obtain e where "y = Inl e" by (cases y) auto
  with f show ?thesis by (simp add: gather_def)
qed

lemma post_order_returns:
  assumes "create_rest_headers self (post_clock w r i) ''POST'' ''/v1/fs/orders'' (json_dumps w payload)
             = Inr headers"
    and "module_paradigm_http_url w = Some url"
    and "post_reply w r i = HttpResponse status_code (Inr response)
         \<or> post_reply w r i = HttpRaises ClientConnectorError"
  shows "snd (post_order w self r i payload) = Inr ()"
  using assms by (auto simp: post_order_def post_order_except_def Let_def)

text \<open>
  Claim C3, on the code. When the reply to a submission has a body that
  \<^verbatim>\<open>response.json\<close> cannot decode (whatever the status code), or when the request fails
  with an exception other than \<^verbatim>\<open>ClientConnectorError\<close>, \<^verbatim>\<open>post_order\<close> raises that
  exception to its caller: \<^verbatim>\<open>gather\<close> raises it in \<^verbatim>\<open>manager\<close>, and the run ends within
  that round, without the sleep and without a next round.
\<close>

theorem submission_failure_leaves_manager:
  assumes headers: "create_rest_headers self (post_clock w r i) ''POST'' ''/v1/fs/orders''
                      (json_dumps w (order_payload order)) = Inr headers"
    and url: "module_paradigm_http_url w = Some url"
    and reply: "post_reply w r i = HttpResponse status_code (Inl e) \<or> post_reply w r i = HttpRaises e"
    and other: "e \<noteq> ClientConnectorError"
    and task: "i < length (order_payloads self)" "order_payloads self ! i = order"
  shows "post_order w self r i (order_payload order) =
           ([HttpPost (url @ ''/v1/fs/orders'') headers (order_payload order)], Inl e)
       \<and> (\<exists>e'. snd (manager_loop w self r (Suc fuel)) = Raised e')
       \<and> (\<forall>d. Sleep d \<notin> set (fst (manager_loop w self r (Suc fuel))))"
proof -
  let ?tasks = "map (\<lambda>(i, order). post_order w self r i (order_payload order))
                    (enumerate 0 (order_payloads self))"
  have p: "post_order w self r i (order_payload order) =
             ([HttpPost (url @ ''/v1/fs/orders'') headers (order_payload order)], Inl e)"
    using reply other by (auto simp: post_order_def post_order_except_def headers url Let_def)
  have "(i, order) \<in> set (enumerate 0 (order_payloads self))"
    using task by (auto simp: in_set_enumerate_eq)
  then have "post_order w self r i (order_payload order) \<in> set ?tasks"
    by force
  moreover have "isl (snd (post_order w self r i (order_payload order)))"
    by (simp add: p)
  ultimately obtain e' where g: "snd (gather ?tasks) = Inl e'"
    using gather_raises by blast
  then have m: "manager_loop w self r (Suc fuel) = (fst (gather ?tasks), Raised e')"
    by (simp add: split_beta split: prod.splits sum.splits)
  have "Sleep d \<notin> set (fst (gather ?tasks))" for d
    by (rule no_sleep_gather) (auto simp: no_sleep_post_order)
  with p m show ?thesis by simp
qed


theorem submission_failure_leaves_manager_witness:
  "snd (post_order example_world_502 example_taker_ready 0 1
          (order_payload (order_payloads example_taker_ready ! 1))) = Inl JSONDecodeError
   \<and> (\<exists>e'. snd (manager_loop example_world_502 example_taker_ready 0 (Suc 4)) = Raised e')
   \<and> (\<forall>d. Sleep d \<notin> set (fst (manager_loop example_world_502 example_taker_ready 0 (Suc 4))))"
proof -
  let ?order = "order_payloads example_taker_ready ! 1"
  have h: "create_rest_headers example_taker_ready (post_clock example_world_502 0 1) ''POST''
             ''/v1/fs/orders'' (json_dumps example_world_502 (order_payload ?order))
           = Inr (projr (create_rest_headers example_taker_ready (post_clock example_world_502 0 1)
                           ''POST'' ''/v1/fs/orders''
                           (json_dumps example_world_502 (order_payload ?order))))"
    unfolding example_taker_ready_def by (rule example_headers)
  have u: "module_paradigm_http_url example_world_502 = Some ''https://api.fs.test.paradigm.co''"
    by (simp add: example_world_502_def example_world_def)
  have r: "post_reply example_world_502 0 1 = HttpResponse 502 (Inl JSONDecodeError)
           \<or> post_reply example_world_502 0 1 = HttpRaises JSONDecodeError"
    by (simp add: example_world_502_def)
  have l: "1 < length (order_payloads example_taker_ready)"
    by (simp add: example_taker_ready_def example_strategies_def construct_order_payloads_def
        TradeAction_members_def)
  from submission_failure_leaves_manager [OF h u r _ l refl, of 4]
  show ?thesis by simp
qed

section \<open>The decimal rendering of the timestamp\<close>

lemma of_char_digit_char: "d < 10 \<Longrightarrow> (of_char (digit_char d) :: nat) = 48 + d"
  by (simp add: digit_char_def)

lemma is_digit_digit_char: "d < 10 \<Longrightarrow> is_digit (digit_char d)"
  by (simp add: is_digit_def of_char_digit_char)

lemma py_str_nat_digits: "list_all is_digit (py_str_nat n)"
proof (induction n rule: py_str_nat.induct)
  case (1 n)
  show ?case
  proof (cases "n < 10")
    case True
    then show ?thesis
      by (subst py_str_nat.simps) (simp add: is_digit_digit_char)
  next
    case False
    with 1 have "list_all is_digit (py_str_nat (n div 10))" by simp
    with False show ?thesis
      by (subst py_str_nat.simps) (simp add: is_digit_digit_char)
  qed
qed

lemma py_str_nat_not_Nil: "py_str_nat n \<noteq> []"
  by (subst py_str_nat.simps) simp

lemma digits_value_snoc:
  "digits_value (s @ [c]) = 10 * digits_value s + ((of_char c :: nat) - 48)"
  by (simp add: digits_value_def)

lemma digits_value_py_str_nat: "digits_value (py_str_nat n) = n"
proof (induction n rule: py_str_nat.induct)
  case (1 n)
  show ?case
  proof (cases "n < 10")
    case True
    then show ?thesis
      by (subst py_str_nat.simps) (simp add: digits_value_def of_char_digit_char)
  next
    case False
    with 1 have "digits_value (py_str_nat (n div 10)) = n div 10" by simp
    with False show ?thesis
      by (subst py_str_nat.simps) (simp add: digits_value_snoc of_char_digit_char)
  qed
qed

lemma hd_py_str_nat_not_minus: "hd (py_str_nat n) \<noteq> CHR ''-''"
proof -
  from py_str_nat_digits [of n] py_str_nat_not_Nil [of n]
  have "is_digit (hd (py_str_nat n))"
    by (cases "py_str_nat n") simp_all
  then show ?thesis
    by (auto simp: is_digit_def)
qed

lemma decimal_value_py_str_int: "decimal_value (py_str_int i) = i"
proof (cases "i < 0")
  case True
  then show ?thesis
    by (simp add: py_str_int_def decimal_value_def digits_value_py_str_nat)
next
  case False
  obtain c cs where s: "py_str_nat (nat i) = c # cs"
    using py_str_nat_not_Nil [of "nat i"] by (cases "py_str_nat (nat i)") auto
  with hd_py_str_nat_not_minus [of "nat i"] have "c \<noteq> CHR ''-''" by simp
  moreover have "digits_value (c # cs) = nat i"
    using digits_value_py_str_nat [of "nat i"] s by simp
  ultimately show ?thesis
    using False s by (simp add: py_str_int_def decimal_value_def)
qed

lemma py_int_of_float_whole:
  assumes "0 \<le> t"
  shows "of_int (py_int_of_float t) \<le> t \<and> t < of_int (py_int_of_float t) + 1 \<and> 0 \<le> py_int_of_float t"
  using assms by (simp add: py_int_of_float_def) linarith

text \<open>
  Claim C1. For every secret key that the base64 decoding accepts, and every method,
  path, body and clock reading \<open>now\<close> (in milliseconds), \<^verbatim>\<open>sign_request\<close> returns the
  base64 encoding of the HMAC-SHA256 digest, keyed with the decoded secret key, of the
  four byte strings timestamp, upper-cased method, path and body joined by single
  newline characters, in this order, together with that same timestamp; the timestamp
  is the decimal rendering of \<open>now\<close> in whole milliseconds: it denotes the integer part
  of \<open>now\<close>, and for a clock reading that is not negative it consists of digits only.
\<close>

theorem sign_request_construction:
  assumes key: "b64decode paradigm_secret_key = Inr signing_key"
    and ts: "timestamp = py_str_int (py_int_of_float now)"
  shows "sign_request now paradigm_secret_key method path body =
           Inr (timestamp,
                b64encode (hmac_sha256 signing_key
                  (timestamp @ [CHR 0x0A] @ bytes_upper method @ [CHR 0x0A] @ path @ [CHR 0x0A] @ body)))
       \<and> decimal_value timestamp = py_int_of_float now
       \<and> (0 \<le> now \<longrightarrow>
            list_all is_digit timestamp
          \<and> of_int (decimal_value timestamp) \<le> now
          \<and> now < of_int (decimal_value timestamp) + 1)"
proof -
  have s: "sign_request now paradigm_secret_key method path body =
           Inr (timestamp,
                b64encode (hmac_sha256 signing_key
                  (timestamp @ [CHR 0x0A] @ bytes_upper method @ [CHR 0x0A] @ path @ [CHR 0x0A] @ body)))"
    by (simp add: sign_request_def key ts Let_def)
  have d: "decimal_value timestamp = py_int_of_float now"
    unfolding ts by (rule decimal_value_py_str_int)
  have w: "list_all is_digit timestamp
          \<and> of_int (decimal_value timestamp) \<le> now
          \<and> now < of_int (decimal_value timestamp) + 1" if "0 \<le> now"
  proof -
    from py_int_of_float_whole [OF that]
    have b: "of_int (py_int_of_float now) \<le> now" "now < of_int (py_int_of_float now) + 1"
      "0 \<le> py_int_of_float now"
      by simp_all
    from b(3) have "timestamp = py_str_nat (nat (py_int_of_float now))"
      by (simp add: ts py_str_int_def)
    then have "list_all is_digit timestamp"
      by (simp add: py_str_nat_digits)
    with b d show ?thesis by simp
  qed
  from s d w show ?thesis by blast
qed

theorem sign_request_construction_witness:
  "sign_request (17000000001239 / 10) ''YWJj'' ''post'' ''/v1/fs/orders'' ''{}'' =
     Inr (''1700000000123'',
          b64encode (hmac_sha256 ''abc''
            (''1700000000123'' @ [CHR 0x0A] @ ''POST'' @ [CHR 0x0A] @ ''/v1/fs/orders'' @ [CHR 0x0A] @ ''{}'')))
   \<and> decimal_value ''1700000000123'' = 1700000000123"
proof -
  have f: "py_int_of_float (17000000001239 / 10) = 1700000000123"
    by (simp add: py_int_of_float_def) linarith
  have "py_str_int (py_int_of_float (17000000001239 / 10)) = ''1700000000123''"
    unfolding f by (simp add: py_str_int_def py_str_nat.simps digit_char_def char_of_eq_iff)
  then have t: "''1700000000123'' = py_str_int (py_int_of_float (17000000001239 / 10))"
    by simp
  have u: "bytes_upper ''post'' = ''POST''"
    by (simp add: bytes_upper_def byte_upper_def char_of_eq_iff)
  from sign_request_construction [OF b64decode_YWJj t, of "''post''" "''/v1/fs/orders''" "''{}''"] f u
  show ?thesis by simp
qed

section \<open>Decoding the secret key\<close>

text \<open>The two arithmetic mappings agree with the printed alphabet.\<close>

lemma b64_char_alphabet:
  "map b64_char [0, 1, 2, 3, 4, 5, 6, 7, 8, 9, 10, 11, 12, 13, 14, 15, 16, 17, 18, 19, 20, 21, 22, 23, 24, 25, 26, 27, 28, 29, 30, 31, 32, 33, 34, 35, 36, 37, 38, 39, 40, 41, 42, 43, 44, 45, 46, 47, 48, 49, 50, 51, 52, 53, 54, 55, 56, 57, 58, 59, 60, 61, 62, 63] = b64_alphabet"
  by (simp add: b64_char_def b64_alphabet_def char_of_eq_iff)
lemma b64_index_alphabet:
  "map b64_index b64_alphabet = map Some [0, 1, 2, 3, 4, 5, 6, 7, 8, 9, 10, 11, 12, 13, 14, 15, 16, 17, 18, 19, 20, 21, 22, 23, 24, 25, 26, 27, 28, 29, 30, 31, 32, 33, 34, 35, 36, 37, 38, 39, 40, 41, 42, 43, 44, 45, 46, 47, 48, 49, 50, 51, 52, 53, 54, 55, 56, 57, 58, 59, 60, 61, 62, 63]"
  by (simp add: b64_index_def b64_alphabet_def)


lemma b64_index_less: "b64_index c = Some v \<Longrightarrow> v < 64"
  by (auto simp: b64_index_def Let_def split: if_splits)























end
